theory Spec2Isabelle
  imports Main "HOL-Library.AList" "HOL-Library.Sublist"
begin

section \<open>Domain model\<close>

text \<open>
  A Python \<open>str\<close> is modelled by its UTF-8 encoding, a \<open>string\<close> of bytes: the files
  are written and read as UTF-8, and substring tests, splitting at an ASCII separator and
  the search for the ASCII fence \<open>---\<close> give the same answer on the encoding as on the
  code points. The operations of \<open>str\<close> that depend on Unicode tables (\<open>lower\<close>,
  \<open>strip\<close>, \<open>isdigit\<close>, \<open>int\<close>) and the PyYAML and json functions are not code of the
  repository: they are the fields of a record \<open>lib\<close> that every operation takes.
\<close>

datatype RadicalType = SEMANTIC | PHONETIC | BOTH | UNKNOWN

datatype StrokeType =
  HORIZONTAL | VERTICAL | LEFT_DIAGONAL | RIGHT_DIAGONAL | DOT | HOOK | RISING | BEND

datatype error = ValueError | KeyError | YAMLError

fun RadicalType_value :: "RadicalType \<Rightarrow> string" where
  "RadicalType_value SEMANTIC = ''semantic''"
| "RadicalType_value PHONETIC = ''phonetic''"
| "RadicalType_value BOTH = ''both''"
| "RadicalType_value UNKNOWN = ''unknown''"

fun StrokeType_value :: "StrokeType \<Rightarrow> string" where
  "StrokeType_value HORIZONTAL = [CHR 0xE6, CHR 0xA8, CHR 0xAA]"
| "StrokeType_value VERTICAL = [CHR 0xE7, CHR 0xAB, CHR 0x96]"
| "StrokeType_value LEFT_DIAGONAL = [CHR 0xE6, CHR 0x92, CHR 0x87]"
| "StrokeType_value RIGHT_DIAGONAL = [CHR 0xE6, CHR 0x8D, CHR 0xBA]"
| "StrokeType_value DOT = [CHR 0xE7, CHR 0x82, CHR 0xB9]"
| "StrokeType_value HOOK = [CHR 0xE9, CHR 0x92, CHR 0xA9]"
| "StrokeType_value RISING = [CHR 0xE6, CHR 0x8F, CHR 0x90]"
| "StrokeType_value BEND = [CHR 0xE6, CHR 0x8A, CHR 0x98]"

text \<open>\<open>RadicalType(s)\<close> and \<open>StrokeType(s)\<close>: the member with that value, else ValueError.\<close>

definition RadicalType_of :: "string \<Rightarrow> error + RadicalType" where
  "RadicalType_of s =
     (if s = ''semantic'' then Inr SEMANTIC
      else if s = ''phonetic'' then Inr PHONETIC
      else if s = ''both'' then Inr BOTH
      else if s = ''unknown'' then Inr UNKNOWN
      else Inl ValueError)"

definition StrokeType_of :: "string \<Rightarrow> error + StrokeType" where
  "StrokeType_of s =
     (if s = StrokeType_value HORIZONTAL then Inr HORIZONTAL
      else if s = StrokeType_value VERTICAL then Inr VERTICAL
      else if s = StrokeType_value LEFT_DIAGONAL then Inr LEFT_DIAGONAL
      else if s = StrokeType_value RIGHT_DIAGONAL then Inr RIGHT_DIAGONAL
      else if s = StrokeType_value DOT then Inr DOT
      else if s = StrokeType_value HOOK then Inr HOOK
      else if s = StrokeType_value RISING then Inr RISING
      else if s = StrokeType_value BEND then Inr BEND
      else Inl ValueError)"

text \<open>
  A list comprehension \<open>[f(x) for x in xs]\<close> whose \<open>f\<close> may raise: the first failure wins.
\<close>

fun traverse :: "('a \<Rightarrow> error + 'b) \<Rightarrow> 'a list \<Rightarrow> error + 'b list" where
  "traverse f [] = Inr []"
| "traverse f (x # xs) =
     (case f x of
        Inl e \<Rightarrow> Inl e
      | Inr y \<Rightarrow> (case traverse f xs of Inl e \<Rightarrow> Inl e | Inr ys \<Rightarrow> Inr (y # ys)))"

text \<open>
  The dataclasses. The two classes share field names; the fields of \<open>Radical\<close> carry
  the prefix \<open>r_\<close>, those of \<open>Character\<close> the prefix \<open>c_\<close>. An example word is a
  \<open>Dict[str, str]\<close>, kept as an association list.
\<close>

record Radical =
  r_character :: string
  r_pinyin :: string
  r_meaning :: string
  r_type :: RadicalType
  r_strokes :: int
  r_stroke_order :: "StrokeType list"
  r_common_characters :: "string list"
  r_mnemonic :: string

record Character =
  c_character :: string
  c_pinyin :: string
  c_tone :: int
  c_meaning :: "string list"
  c_radicals :: "string list"
  c_strokes :: int
  c_stroke_order :: "StrokeType list"
  c_components :: "string list"
  c_hsk_level :: int
  c_frequency_rank :: int
  c_mnemonic :: string
  c_example_words :: "(string \<times> string) list list"
  c_tags :: "string list"

section \<open>Record codec\<close>

text \<open>
  The frontmatter dictionaries that \<open>_save_radical\<close> and \<open>_save_character\<close> build and
  the parsers read. A key that is absent is \<open>None\<close>. The payload of a key has the type
  the dataclass declares for it; a document whose payload has another type has no
  counterpart in the typed records and is outside this embedding.
\<close>

record radical_frontmatter =
  rf_character :: "string option"
  rf_pinyin :: "string option"
  rf_meaning :: "string option"
  rf_type :: "string option"
  rf_strokes :: "int option"
  rf_mnemonic :: "string option"
  rf_stroke_order :: "string list option"
  rf_common_characters :: "string list option"

record character_frontmatter =
  cf_character :: "string option"
  cf_pinyin :: "string option"
  cf_tone :: "int option"
  cf_meaning :: "string list option"
  cf_radicals :: "string list option"
  cf_strokes :: "int option"
  cf_mnemonic :: "string option"
  cf_stroke_order :: "string list option"
  cf_components :: "string list option"
  cf_example_words :: "(string \<times> string) list list option"
  cf_tags :: "string list option"
  cf_hsk_level :: "int option"
  cf_frequency_rank :: "int option"

text \<open>
  The library functions the repository calls. \<open>yaml_dump_*\<close> is
  \<open>yaml.dump(frontmatter, allow_unicode=True)\<close>; \<open>yaml_load_*\<close> is \<open>yaml.safe_load\<close>
  followed by the reading of the keys, with \<open>Inl\<close> when the text is no YAML mapping;
  \<open>json_dumps\<close> is \<open>json.dumps(xs, ensure_ascii=False)\<close>; \<open>int_of_str\<close> is \<open>int(s)\<close>
  on a \<open>str\<close>, which raises ValueError on a malformed literal.
\<close>

record lib =
  yaml_dump_radical :: "radical_frontmatter \<Rightarrow> string"
  yaml_load_radical :: "string \<Rightarrow> error + radical_frontmatter"
  yaml_dump_character :: "character_frontmatter \<Rightarrow> string"
  yaml_load_character :: "string \<Rightarrow> error + character_frontmatter"
  json_dumps :: "string list \<Rightarrow> string"
  lower :: "string \<Rightarrow> string"
  strip :: "string \<Rightarrow> string"
  isdigit :: "string \<Rightarrow> bool"
  int_of_str :: "string \<Rightarrow> error + int"

subsection \<open>Text helpers\<close>

text \<open>\<open>sep.join(xs)\<close>.\<close>

fun join :: "string \<Rightarrow> string list \<Rightarrow> string" where
  "join sep [] = []"
| "join sep [x] = x"
| "join sep (x # y # ys) = x @ sep @ join sep (y # ys)"

text \<open>\<open>str(n)\<close> of an integer, in decimal.\<close>

function str_nat :: "nat \<Rightarrow> string" where
  "str_nat n =
     (if n < 10 then [char_of (48 + n)] else str_nat (n div 10) @ [char_of (48 + n mod 10)])"
  by pat_completeness auto
termination
  by (relation "measure id") auto

definition str_int :: "int \<Rightarrow> string" where
  "str_int i = (if i < 0 then CHR ''-'' # str_nat (nat (- i)) else str_nat (nat i))"

text \<open>\<open>n or "N/A"\<close> inside an f-string.\<close>

definition int_or_na :: "int \<Rightarrow> string" where
  "int_or_na i = (if i \<noteq> 0 then str_int i else ''N/A'')"

definition arrow :: string where
  "arrow = [CHR '' '', CHR 0xE2, CHR 0x86, CHR 0x92, CHR '' '']"

definition nl :: string where
  "nl = [CHR 0x0A]"

text \<open>\<open>d[k]\<close> on a dictionary kept as an association list: KeyError when absent.\<close>

definition getitem :: "('k \<times> 'v) list \<Rightarrow> 'k \<Rightarrow> error + 'v" where
  "getitem d k = (case map_of d k of None \<Rightarrow> Inl KeyError | Some v \<Rightarrow> Inr v)"

definition get_or :: "'a option \<Rightarrow> 'a \<Rightarrow> 'a" where
  \<comment> \<open>\<open>frontmatter.get(key, default)\<close> and \<open>row.get(key, default)\<close>\<close>
  "get_or v d = (case v of None \<Rightarrow> d | Some x \<Rightarrow> x)"

definition unlines :: "string list \<Rightarrow> string" where
  "unlines ls = concat (map (\<lambda>l. l @ nl) ls)"

definition dq :: string where
  "dq = [CHR 0x22]"

definition bs :: string where
  "bs = [CHR 0x5C]"

definition wikilink :: "string \<Rightarrow> string" where
  "wikilink t = ''[['' @ t @ '']]''"

subsection \<open>Encoding a radical\<close>

definition radical_frontmatter_of :: "Radical \<Rightarrow> radical_frontmatter" where
  "radical_frontmatter_of radical =
     \<lparr> rf_character = Some (r_character radical),
       rf_pinyin = Some (r_pinyin radical),
       rf_meaning = Some (r_meaning radical),
       rf_type = Some (RadicalType_value (r_type radical)),
       rf_strokes = Some (r_strokes radical),
       rf_mnemonic = Some (r_mnemonic radical),
       rf_stroke_order =
         (if r_stroke_order radical \<noteq> []
          then Some (map StrokeType_value (r_stroke_order radical)) else None),
       rf_common_characters =
         (if r_common_characters radical \<noteq> []
          then Some (r_common_characters radical) else None) \<rparr>"

definition radical_overview :: "Radical \<Rightarrow> string list" where
  "radical_overview radical =
     [''---'', [],
      ''# '' @ r_character radical @ '' - '' @ r_meaning radical, [],
      ''## Overview'',
      ''- **Pinyin**: '' @ r_pinyin radical,
      ''- **Type**: '' @ RadicalType_value (r_type radical),
      ''- **Strokes**: '' @ str_int (r_strokes radical), [],
      ''## Mnemonic'']"

definition radical_content :: "lib \<Rightarrow> Radical \<Rightarrow> string" where
  "radical_content L radical =
     ''---'' @ nl @ yaml_dump_radical L (radical_frontmatter_of radical) @
     unlines (radical_overview radical @
       [r_mnemonic radical, [],
        ''## Common Characters'',
        join '', '' (r_common_characters radical), [],
        ''## Stroke Order'',
        join arrow (map StrokeType_value (r_stroke_order radical))])"

definition radical_obsidian_content :: "lib \<Rightarrow> Radical \<Rightarrow> string" where
  "radical_obsidian_content L radical =
     ''---'' @ nl @ yaml_dump_radical L (radical_frontmatter_of radical) @
     unlines (radical_overview radical @
       [''> [!hint] Memory Aid'',
        ''> '' @ r_mnemonic radical, [],
        ''## Common Characters'',
        join '', '' (map wikilink (r_common_characters radical)), [],
        ''## Stroke Order'',
        join arrow (map StrokeType_value (r_stroke_order radical)), [],
        ''## Practice'',
        ''![['' @ r_character radical @ ''_stroke_order.gif]]'', [],
        ''> [!question] Flashcard'',
        ''> What is the meaning of '' @ r_character radical @ ''?'',
        ''> '',
        ''> > [!success] Answer'',
        ''> > '' @ r_meaning radical])"

subsection \<open>Encoding a character\<close>

definition character_frontmatter_of :: "Character \<Rightarrow> character_frontmatter" where
  "character_frontmatter_of character =
     \<lparr> cf_character = Some (c_character character),
       cf_pinyin = Some (c_pinyin character),
       cf_tone = Some (c_tone character),
       cf_meaning = Some (c_meaning character),
       cf_radicals = Some (c_radicals character),
       cf_strokes = Some (c_strokes character),
       cf_mnemonic = Some (c_mnemonic character),
       cf_stroke_order =
         (if c_stroke_order character \<noteq> []
          then Some (map StrokeType_value (c_stroke_order character)) else None),
       cf_components =
         (if c_components character \<noteq> [] then Some (c_components character) else None),
       cf_example_words =
         (if c_example_words character \<noteq> []
          then Some (c_example_words character) else None),
       cf_tags = (if c_tags character \<noteq> [] then Some (c_tags character) else None),
       cf_hsk_level =
         (if c_hsk_level character \<noteq> 0 then Some (c_hsk_level character) else None),
       cf_frequency_rank =
         (if c_frequency_rank character \<noteq> 0
          then Some (c_frequency_rank character) else None) \<rparr>"

text \<open>
  One line of the example-word loop,
  \<open>f"- {word['word']} ({word['pinyin']}): {word['meaning']}\n"\<close>: a word that lacks
  one of the three keys raises KeyError.
\<close>

definition example_word_line :: "(string \<times> string) list \<Rightarrow> error + string" where
  "example_word_line word =
     (case getitem word ''word'' of
        Inl e \<Rightarrow> Inl e
      | Inr w \<Rightarrow>
          (case getitem word ''pinyin'' of
             Inl e \<Rightarrow> Inl e
           | Inr p \<Rightarrow>
               (case getitem word ''meaning'' of
                  Inl e \<Rightarrow> Inl e
                | Inr m \<Rightarrow> Inr (''- '' @ w @ '' ('' @ p @ ''): '' @ m @ nl))))"

definition example_word_lines :: "Character \<Rightarrow> error + string" where
  "example_word_lines character =
     (case traverse example_word_line (c_example_words character) of
        Inl e \<Rightarrow> Inl e
      | Inr ls \<Rightarrow> Inr (concat ls))"

definition character_heading :: "Character \<Rightarrow> string list" where
  "character_heading character =
     [''---'', [],
      ''# '' @ c_character character @ '' - '' @ join '', '' (c_meaning character), [],
      ''## Overview'',
      ''- **Pinyin**: '' @ c_pinyin character @ '' (Tone '' @ str_int (c_tone character) @ '')'']"

definition character_facts :: "Character \<Rightarrow> string list" where
  "character_facts character =
     [''- **Strokes**: '' @ str_int (c_strokes character),
      ''- **HSK Level**: '' @ int_or_na (c_hsk_level character),
      ''- **Frequency Rank**: '' @ int_or_na (c_frequency_rank character), [],
      ''## Mnemonic'']"

definition stroke_order_tail :: "Character \<Rightarrow> string" where
  "stroke_order_tail character =
     nl @ ''## Stroke Order'' @ nl @ join arrow (map StrokeType_value (c_stroke_order character))"

definition character_content :: "lib \<Rightarrow> Character \<Rightarrow> error + string" where
  "character_content L character =
     (case example_word_lines character of
        Inl e \<Rightarrow> Inl e
      | Inr ws \<Rightarrow>
          Inr (''---'' @ nl @ yaml_dump_character L (character_frontmatter_of character) @
            unlines (character_heading character @
              [''- **Radicals**: '' @ join '', '' (c_radicals character),
               ''- **Components**: '' @ join '', '' (c_components character)] @
              character_facts character @
              [c_mnemonic character, [], ''## Example Words'']) @
            ws @ stroke_order_tail character))"

definition code_snippet :: "lib \<Rightarrow> Character \<Rightarrow> string" where
  "code_snippet L character =
     nl @ unlines
       [''## Code Snippet'',
        ''```python'',
        ''# Character metadata'',
        ''char_data = {'',
        ''    '' @ dq @ ''character'' @ dq @ '': '' @ dq @ c_character character @ dq @ '','',
        ''    '' @ dq @ ''pinyin'' @ dq @ '': '' @ dq @ c_pinyin character @ dq @ '','',
        ''    '' @ dq @ ''tone'' @ dq @ '': '' @ str_int (c_tone character) @ '','',
        ''    '' @ dq @ ''meaning'' @ dq @ '': '' @ json_dumps L (c_meaning character) @ '','',
        ''    '' @ dq @ ''radicals'' @ dq @ '': '' @ json_dumps L (c_radicals character) @ '','',
        ''    '' @ dq @ ''strokes'' @ dq @ '': '' @ str_int (c_strokes character) @ '','',
        ''    '' @ dq @ ''hsk_level'' @ dq @ '': '' @ str_int (c_hsk_level character) @ '','',
        ''    '' @ dq @ ''frequency_rank'' @ dq @ '': '' @
          str_int (c_frequency_rank character),
        ''}'',
        [],
        ''# Export for Anki'',
        ''anki_fields = f'' @ dq @ ''{character.character}'' @ bs @ ''t{character.pinyin}'' @
          bs @ ''t{'' @ [CHR 0x27] @ '', '' @ [CHR 0x27] @ ''.join(character.meaning)}'' @
          bs @ ''t{character.mnemonic}'' @ dq,
        ''```'']"

definition character_obsidian_content :: "lib \<Rightarrow> Character \<Rightarrow> error + string" where
  "character_obsidian_content L character =
     (case example_word_lines character of
        Inl e \<Rightarrow> Inl e
      | Inr ws \<Rightarrow>
          Inr (''---'' @ nl @ yaml_dump_character L (character_frontmatter_of character) @
            unlines (character_heading character @
              [''- **Radicals**: '' @
                 join '', '' (map (\<lambda>rad. ''[[radicals/'' @ rad @ ''|'' @ rad @ '']]'')
                   (c_radicals character)),
               ''- **Components**: '' @ join '', '' (map wikilink (c_components character))] @
              character_facts character @
              [''> [!hint] Memory Aid'',
               ''> '' @ c_mnemonic character, [], ''## Example Words'']) @
            ws @ stroke_order_tail character @ nl @
            unlines
              [[],
               ''## Practice'',
               ''![['' @ c_character character @ ''_stroke_order.gif]]'', [],
               ''> [!question] Flashcard'',
               ''> What is the meaning of '' @ c_character character @ ''?'',
               ''> '',
               ''> > [!success] Answer'',
               ''> > '' @ join '', '' (c_meaning character), [],
               ''> [!question] Flashcard'',
               ''> How do you pronounce '' @ c_character character @ ''?'',
               ''> '',
               ''> > [!success] Answer'',
               ''> > '' @ c_pinyin character @ '' (Tone '' @ str_int (c_tone character) @
                 '')'']))"

subsection \<open>Decoding\<close>

text \<open>
  \<open>re.search(r"^---\n(.*?)\n---", content, re.DOTALL)\<close>: without \<open>re.MULTILINE\<close> the
  anchor matches at the start of the text only, and the lazy group ends at the first
  newline followed by three hyphens behind the opening fence. \<open>until_fence\<close> returns the
  text before that first closing fence, \<open>frontmatter_block\<close> is \<open>yaml_match.group(1)\<close>,
  \<open>None\<close> when there is no match.
\<close>

fun until_fence :: "string \<Rightarrow> string option" where
  "until_fence [] = None"
| "until_fence (c # cs) =
     (if prefix (nl @ ''---'') (c # cs) then Some []
      else map_option ((#) c) (until_fence cs))"

definition frontmatter_block :: "string \<Rightarrow> string option" where
  "frontmatter_block content =
     (if prefix (''---'' @ nl) content then until_fence (drop 4 content) else None)"

text \<open>
  \<open>stroke_order = frontmatter.get("stroke_order", [])\<close> followed by
  \<open>if stroke_order: x.stroke_order = [StrokeType(s) for s in stroke_order]\<close>.
\<close>

definition parse_stroke_order :: "string list option \<Rightarrow> error + StrokeType list" where
  "parse_stroke_order v =
     (let stroke_order = get_or v [] in
      if stroke_order \<noteq> [] then traverse StrokeType_of stroke_order else Inr [])"

definition list_if_any :: "'a list option \<Rightarrow> 'a list" where
  \<comment> \<open>\<open>xs = frontmatter.get(key, [])\<close>, \<open>if xs: obj.field = xs\<close>, the field being
      \<open>[]\<close> before\<close>
  "list_if_any v = (let xs = get_or v [] in if xs \<noteq> [] then xs else [])"

text \<open>The body of the \<open>try\<close> block of \<open>_parse_radical_file\<close>, on the text read.\<close>

definition parse_radical_text :: "lib \<Rightarrow> string \<Rightarrow> error + Radical option" where
  "parse_radical_text L content =
     (case frontmatter_block content of
        None \<Rightarrow> Inr None
      | Some y \<Rightarrow>
          (case yaml_load_radical L y of
             Inl e \<Rightarrow> Inl e
           | Inr frontmatter \<Rightarrow>
               (case RadicalType_of (get_or (rf_type frontmatter) ''unknown'') of
                  Inl e \<Rightarrow> Inl e
                | Inr t \<Rightarrow>
                    (case parse_stroke_order (rf_stroke_order frontmatter) of
                       Inl e \<Rightarrow> Inl e
                     | Inr so \<Rightarrow>
                         Inr (Some
                           \<lparr> r_character = get_or (rf_character frontmatter) [],
                             r_pinyin = get_or (rf_pinyin frontmatter) [],
                             r_meaning = get_or (rf_meaning frontmatter) [],
                             r_type = t,
                             r_strokes = get_or (rf_strokes frontmatter) 0,
                             r_stroke_order = so,
                             r_common_characters =
                               list_if_any (rf_common_characters frontmatter),
                             r_mnemonic = get_or (rf_mnemonic frontmatter) [] \<rparr>)))))"

text \<open>\<open>_parse_radical_file\<close>: every exception is caught and gives \<open>None\<close>.\<close>

definition parse_radical_file :: "lib \<Rightarrow> string \<Rightarrow> Radical option" where
  "parse_radical_file L content =
     (case parse_radical_text L content of Inl e \<Rightarrow> None | Inr r \<Rightarrow> r)"

definition parse_character_text :: "lib \<Rightarrow> string \<Rightarrow> error + Character option" where
  "parse_character_text L content =
     (case frontmatter_block content of
        None \<Rightarrow> Inr None
      | Some y \<Rightarrow>
          (case yaml_load_character L y of
             Inl e \<Rightarrow> Inl e
           | Inr frontmatter \<Rightarrow>
               (case parse_stroke_order (cf_stroke_order frontmatter) of
                  Inl e \<Rightarrow> Inl e
                | Inr so \<Rightarrow>
                    Inr (Some
                      \<lparr> c_character = get_or (cf_character frontmatter) [],
                        c_pinyin = get_or (cf_pinyin frontmatter) [],
                        c_tone = get_or (cf_tone frontmatter) 0,
                        c_meaning = get_or (cf_meaning frontmatter) [],
                        c_radicals = get_or (cf_radicals frontmatter) [],
                        c_strokes = get_or (cf_strokes frontmatter) 0,
                        c_stroke_order = so,
                        c_components = list_if_any (cf_components frontmatter),
                        c_hsk_level = get_or (cf_hsk_level frontmatter) 0,
                        c_frequency_rank = get_or (cf_frequency_rank frontmatter) 0,
                        c_mnemonic = get_or (cf_mnemonic frontmatter) [],
                        c_example_words = list_if_any (cf_example_words frontmatter),
                        c_tags = list_if_any (cf_tags frontmatter) \<rparr>))))"

definition parse_character_file :: "lib \<Rightarrow> string \<Rightarrow> Character option" where
  "parse_character_file L content =
     (case parse_character_text L content of Inl e \<Rightarrow> None | Inr c \<Rightarrow> c)"

section \<open>Store\<close>

text \<open>
  The three dictionaries of \<open>ChineseCharacterSystem\<close> are association lists in insertion
  order, as a Python \<open>dict\<close> iterates: \<open>d[k] = v\<close> is \<open>AList.update\<close>, which replaces the
  value of a present key in place and appends an absent one. A Python \<open>set\<close> of keys is a
  list without duplicates; the order Python iterates it in is unspecified, and no theorem
  below depends on the order chosen here. The file system is the association list
  \<open>files\<close> from a path (document root, subdirectory, stem of the \<open>.md\<close> file) to the
  text of the file. Creating directories and writing a file are taken to succeed.
\<close>

datatype root = root_dir | vscode_dir | obsidian_dir

datatype subdir = RadicalsDir | CharactersDir

type_synonym path = "root \<times> subdir \<times> string"

record store =
  radicals :: "(string \<times> Radical) list"
  characters :: "(string \<times> Character) list"
  radical_index :: "(string \<times> string list) list"
  files :: "(path \<times> string) list"

definition has_key :: "('k \<times> 'v) list \<Rightarrow> 'k \<Rightarrow> bool" where
  \<comment> \<open>\<open>k in d\<close>\<close>
  "has_key d k = (map_of d k \<noteq> None)"

definition set_add :: "'a \<Rightarrow> 'a list \<Rightarrow> 'a list" where
  \<comment> \<open>\<open>s.add(x)\<close>\<close>
  "set_add x s = (if x \<in> set s then s else s @ [x])"

definition write_text :: "path \<Rightarrow> string \<Rightarrow> store \<Rightarrow> store" where
  "write_text p content st = st\<lparr>files := AList.update p content (files st)\<rparr>"

definition save_radical :: "lib \<Rightarrow> Radical \<Rightarrow> store \<Rightarrow> store" where
  "save_radical L radical st =
     (let content = radical_content L radical;
          st1 = write_text (root_dir, RadicalsDir, r_character radical) content st;
          st2 = write_text (vscode_dir, RadicalsDir, r_character radical) content st1
      in write_text (obsidian_dir, RadicalsDir, r_character radical)
           (radical_obsidian_content L radical) st2)"

text \<open>
  \<open>_save_character\<close>: the plain text is built first, and its example-word loop may raise
  before anything is written.
\<close>

definition save_character :: "lib \<Rightarrow> Character \<Rightarrow> store \<Rightarrow> (error + unit) \<times> store" where
  "save_character L character st =
     (case character_content L character of
        Inl e \<Rightarrow> (Inl e, st)
      | Inr content \<Rightarrow>
          (let st1 = write_text (root_dir, CharactersDir, c_character character) content st;
               st2 = write_text (vscode_dir, CharactersDir, c_character character)
                       (content @ code_snippet L character) st1
           in case character_obsidian_content L character of
                Inl e \<Rightarrow> (Inl e, st2)
              | Inr obsidian_content \<Rightarrow>
                  (Inr (),
                   write_text (obsidian_dir, CharactersDir, c_character character)
                     obsidian_content st2)))"

definition add_radical :: "lib \<Rightarrow> Radical \<Rightarrow> store \<Rightarrow> (error + bool) \<times> store" where
  "add_radical L radical st =
     (if has_key (radicals st) (r_character radical) then (Inr False, st)
      else (Inr True,
            save_radical L radical
              (st\<lparr>radicals := AList.update (r_character radical) radical (radicals st)\<rparr>)))"

text \<open>
  One round of the loop over \<open>character.radicals\<close>:
  \<open>if radical not in self.radical_index: self.radical_index[radical] = set()\<close>, then
  \<open>self.radical_index[radical].add(character.character)\<close>.
\<close>

definition index_add :: "string \<Rightarrow> (string \<times> string list) list \<Rightarrow> string \<Rightarrow>
    (string \<times> string list) list" where
  "index_add ch idx radical =
     (case map_of idx radical of
        None \<Rightarrow> AList.update radical (set_add ch []) (AList.update radical [] idx)
      | Some s \<Rightarrow> AList.update radical (set_add ch s) idx)"

definition update_radical_index :: "Character \<Rightarrow> store \<Rightarrow> store" where
  "update_radical_index character st =
     st\<lparr>radical_index :=
          foldl (index_add (c_character character)) (radical_index st) (c_radicals character)\<rparr>"

definition add_character :: "lib \<Rightarrow> Character \<Rightarrow> store \<Rightarrow> (error + bool) \<times> store" where
  "add_character L character st =
     (if has_key (characters st) (c_character character) then (Inr False, st)
      else
        (let st1 = st\<lparr>characters :=
                        AList.update (c_character character) character (characters st)\<rparr>;
             st2 = update_radical_index character st1
         in case save_character L character st2 of
              (Inl e, st3) \<Rightarrow> (Inl e, st3)
            | (Inr u, st3) \<Rightarrow> (Inr True, st3)))"

subsection \<open>Loading\<close>

text \<open>\<open>dir.glob("*.md")\<close> on a subdirectory of the plain root: the texts of its files.\<close>

definition glob :: "subdir \<Rightarrow> store \<Rightarrow> string list" where
  "glob d st = map snd (filter (\<lambda>(p, content). fst p = root_dir \<and> fst (snd p) = d) (files st))"

definition load_radical :: "lib \<Rightarrow> store \<Rightarrow> string \<Rightarrow> store" where
  "load_radical L st content =
     (case parse_radical_file L content of
        None \<Rightarrow> st
      | Some radical \<Rightarrow>
          st\<lparr>radicals := AList.update (r_character radical) radical (radicals st)\<rparr>)"

definition load_character :: "lib \<Rightarrow> store \<Rightarrow> string \<Rightarrow> store" where
  "load_character L st content =
     (case parse_character_file L content of
        None \<Rightarrow> st
      | Some character \<Rightarrow>
          update_radical_index character
            (st\<lparr>characters :=
                  AList.update (c_character character) character (characters st)\<rparr>))"

definition load_data :: "lib \<Rightarrow> store \<Rightarrow> store" where
  "load_data L st =
     (let st1 = foldl (load_radical L) st (glob RadicalsDir st)
      in foldl (load_character L) st1 (glob CharactersDir st1))"

text \<open>The constructor: empty dictionaries over the files found, then \<open>load_data\<close>.\<close>

definition init :: "lib \<Rightarrow> (path \<times> string) list \<Rightarrow> store" where
  "init L fs = load_data L \<lparr>radicals = [], characters = [], radical_index = [], files = fs\<rparr>"

subsection \<open>Queries\<close>

definition get_characters_by_radical :: "store \<Rightarrow> string \<Rightarrow> error + Character list" where
  "get_characters_by_radical st radical =
     (if \<not> has_key (radical_index st) radical then Inr []
      else traverse (getitem (characters st))
             (filter (has_key (characters st)) (get_or (map_of (radical_index st) radical) [])))"

text \<open>\<open>q in s\<close> on strings: \<open>q\<close> occurs in \<open>s\<close> as a contiguous piece.\<close>

fun str_in :: "string \<Rightarrow> string \<Rightarrow> bool" where
  "str_in q [] = (q = [])"
| "str_in q (c # cs) = (prefix q (c # cs) \<or> str_in q cs)"

text \<open>
  One round of the loop of \<open>search_characters\<close>; each \<open>continue\<close> ends the round with the
  character appended once.
\<close>

definition search_step :: "lib \<Rightarrow> string \<Rightarrow> Character list \<Rightarrow> Character \<Rightarrow> Character list" where
  "search_step L query results char =
     (if str_in query (c_character char) then results @ [char]
      else if str_in (lower L query) (lower L (c_pinyin char)) then results @ [char]
      else if list_ex (\<lambda>meaning. str_in (lower L query) (lower L meaning)) (c_meaning char)
        then results @ [char]
      else if list_ex (\<lambda>tag. str_in (lower L query) (lower L tag)) (c_tags char)
        then results @ [char]
      else results)"

definition search_characters :: "lib \<Rightarrow> store \<Rightarrow> string \<Rightarrow> Character list" where
  "search_characters L st query = foldl (search_step L query) [] (map snd (characters st))"

subsection \<open>Statistics\<close>

record stats =
  total_characters :: nat
  total_radicals :: nat
  characters_by_hsk_level :: "(int \<times> nat) list"
  characters_by_stroke_count :: "(int \<times> nat) list"
  most_common_radicals :: "(string \<times> nat) list"

definition count_key :: "(int \<times> nat) list \<Rightarrow> int \<Rightarrow> (int \<times> nat) list" where
  \<comment> \<open>\<open>if k not in d: d[k] = 0\<close>, then \<open>d[k] += 1\<close>\<close>
  "count_key d k =
     (case map_of d k of
        None \<Rightarrow> AList.update k (0 + 1) (AList.update k 0 d)
      | Some n \<Rightarrow> AList.update k (n + 1) d)"

definition radical_count :: "(string \<times> string list) list \<Rightarrow> (string \<times> nat) list" where
  \<comment> \<open>\<open>radical_count[radical] = len(chars)\<close> for every item of the index\<close>
  "radical_count idx = foldl (\<lambda>d (radical, chars). AList.update radical (length chars) d) [] idx"

text \<open>
  \<open>sorted(items, key=count, reverse=True)[:10]\<close>. Python's sort is stable also when
  reversed; \<open>sort_key\<close> is stable, and sorts by the negated count.
\<close>

definition generate_stats :: "store \<Rightarrow> stats" where
  "generate_stats st =
     \<lparr> total_characters = length (characters st),
       total_radicals = length (radicals st),
       characters_by_hsk_level =
         foldl (\<lambda>d char. count_key d (if c_hsk_level char \<noteq> 0 then c_hsk_level char else 0))
           [] (map snd (characters st)),
       characters_by_stroke_count =
         foldl (\<lambda>d char. count_key d (c_strokes char)) [] (map snd (characters st)),
       most_common_radicals =
         take 10 (sort_key (\<lambda>x. - int (snd x)) (radical_count (radical_index st))) \<rparr>"

section \<open>Bulk import\<close>

text \<open>
  \<open>import_from_csv\<close> is modelled on the rows that \<open>csv.DictReader\<close> yields, each a
  dictionary from the column names of the header to the cells of the row. A column that
  the header lacks is an absent key. Rows are taken to have a cell for every column of
  the header; opening and reading the file are taken to succeed.
\<close>

type_synonym row = "string \<rightharpoonup> string"

text \<open>\<open>s.split(",")\<close>: the pieces between the separators, one piece for a text without any.\<close>

fun split_on :: "char \<Rightarrow> string \<Rightarrow> string list" where
  "split_on sep [] = [[]]"
| "split_on sep (c # cs) =
     (if c = sep then [] # split_on sep cs
      else (case split_on sep cs of [] \<Rightarrow> [[c]] | w # ws \<Rightarrow> (c # w) # ws))"

definition split_strip :: "lib \<Rightarrow> string \<Rightarrow> string list" where
  \<comment> \<open>\<open>[x.strip() for x in s.split(",")]\<close>\<close>
  "split_strip L s = map (strip L) (split_on CHR '','' s)"

definition int_field :: "lib \<Rightarrow> string option \<Rightarrow> error + int" where
  \<comment> \<open>\<open>int(row.get(key, 0))\<close>\<close>
  "int_field L v = (case v of None \<Rightarrow> Inr 0 | Some s \<Rightarrow> int_of_str L s)"

definition row_stroke_order :: "lib \<Rightarrow> row \<Rightarrow> error + StrokeType list" where
  "row_stroke_order L row =
     (let stroke_order = get_or (row ''stroke_order'') [] in
      if stroke_order \<noteq> []
      then traverse (\<lambda>s. StrokeType_of (strip L s)) (split_on CHR '','' stroke_order)
      else Inr [])"

definition row_list :: "lib \<Rightarrow> row \<Rightarrow> string \<Rightarrow> string list" where
  \<comment> \<open>\<open>v = row.get(key, "")\<close>, \<open>if v: obj.field = [x.strip() for x in v.split(",")]\<close>\<close>
  "row_list L row key = (let v = get_or (row key) [] in if v \<noteq> [] then split_strip L v else [])"

definition row_digits :: "lib \<Rightarrow> row \<Rightarrow> string \<Rightarrow> error + int" where
  \<comment> \<open>\<open>v = row.get(key, "")\<close>, \<open>if v and v.isdigit(): obj.field = int(v)\<close>, the field
      being \<open>0\<close> before\<close>
  "row_digits L row key =
     (let v = get_or (row key) [] in
      if v \<noteq> [] \<and> isdigit L v then int_of_str L v else Inr 0)"

definition radical_of_row :: "lib \<Rightarrow> row \<Rightarrow> error + Radical" where
  "radical_of_row L row =
     (case RadicalType_of (get_or (row ''type'') ''unknown'') of
        Inl e \<Rightarrow> Inl e
      | Inr t \<Rightarrow>
          (case int_field L (row ''strokes'') of
             Inl e \<Rightarrow> Inl e
           | Inr n \<Rightarrow>
               (case row_stroke_order L row of
                  Inl e \<Rightarrow> Inl e
                | Inr so \<Rightarrow>
                    Inr \<lparr> r_character = get_or (row ''character'') [],
                          r_pinyin = get_or (row ''pinyin'') [],
                          r_meaning = get_or (row ''meaning'') [],
                          r_type = t,
                          r_strokes = n,
                          r_stroke_order = so,
                          r_common_characters = row_list L row ''common_characters'',
                          r_mnemonic = get_or (row ''mnemonic'') [] \<rparr>)))"

definition character_of_row :: "lib \<Rightarrow> row \<Rightarrow> error + Character" where
  "character_of_row L row =
     (let meaning_list = split_strip L (get_or (row ''meaning'') []);
          radicals_list = split_strip L (get_or (row ''radicals'') [])
      in case int_field L (row ''tone'') of
           Inl e \<Rightarrow> Inl e
         | Inr tone \<Rightarrow>
             (case int_field L (row ''strokes'') of
                Inl e \<Rightarrow> Inl e
              | Inr n \<Rightarrow>
                  (case row_stroke_order L row of
                     Inl e \<Rightarrow> Inl e
                   | Inr so \<Rightarrow>
                       (case row_digits L row ''hsk_level'' of
                          Inl e \<Rightarrow> Inl e
                        | Inr hsk \<Rightarrow>
                            (case row_digits L row ''frequency_rank'' of
                               Inl e \<Rightarrow> Inl e
                             | Inr freq \<Rightarrow>
                                 Inr \<lparr> c_character = get_or (row ''character'') [],
                                       c_pinyin = get_or (row ''pinyin'') [],
                                       c_tone = tone,
                                       c_meaning = meaning_list,
                                       c_radicals = radicals_list,
                                       c_strokes = n,
                                       c_stroke_order = so,
                                       c_components = row_list L row ''components'',
                                       c_hsk_level = hsk,
                                       c_frequency_rank = freq,
                                       c_mnemonic = get_or (row ''mnemonic'') [],
                                       c_example_words = [],
                                       c_tags = row_list L row ''tags'' \<rparr>)))))"

definition is_radical :: "lib \<Rightarrow> row \<Rightarrow> bool" where
  "is_radical L row = (lower L (get_or (row ''is_radical'') []) = ''true'')"

text \<open>
  One round of the loop over the rows, up to \<open>count += 1\<close>. The result of
  \<open>add_radical\<close> and \<open>add_character\<close> is dropped, as in the source.
\<close>

definition import_row :: "lib \<Rightarrow> store \<Rightarrow> row \<Rightarrow> (error + unit) \<times> store" where
  "import_row L st row =
     (if is_radical L row then
        (case radical_of_row L row of
           Inl e \<Rightarrow> (Inl e, st)
         | Inr radical \<Rightarrow>
             (case add_radical L radical st of
                (Inl e, st') \<Rightarrow> (Inl e, st')
              | (Inr added, st') \<Rightarrow> (Inr (), st')))
      else
        (case character_of_row L row of
           Inl e \<Rightarrow> (Inl e, st)
         | Inr character \<Rightarrow>
             (case add_character L character st of
                (Inl e, st') \<Rightarrow> (Inl e, st')
              | (Inr added, st') \<Rightarrow> (Inr (), st'))))"

fun import_rows :: "lib \<Rightarrow> row list \<Rightarrow> nat \<Rightarrow> store \<Rightarrow> (error + nat) \<times> store" where
  "import_rows L [] count st = (Inr count, st)"
| "import_rows L (row # rows) count st =
     (case import_row L st row of
        (Inl e, st') \<Rightarrow> (Inl e, st')
      | (Inr u, st') \<Rightarrow> import_rows L rows (count + 1) st')"

text \<open>\<open>import_from_csv\<close>: any exception of the loop is caught and the call returns 0.\<close>

definition import_from_csv :: "lib \<Rightarrow> row list \<Rightarrow> store \<Rightarrow> nat \<times> store" where
  "import_from_csv L rows st =
     (case import_rows L rows 0 st of
        (Inl e, st') \<Rightarrow> (0, st')
      | (Inr count, st') \<Rightarrow> (count, st'))"

section \<open>Specification predicates and examples\<close>

text \<open>The index maps radical \<open>r\<close> to a set that contains the key \<open>ch\<close>.\<close>

definition indexed :: "store \<Rightarrow> string \<Rightarrow> string \<Rightarrow> bool" where
  "indexed st r ch = (case map_of (radical_index st) r of None \<Rightarrow> False | Some s \<Rightarrow> ch \<in> set s)"

text \<open>
  What the codec needs from PyYAML for a frontmatter \<open>fm\<close>: the dumped text ends with a
  newline, no closing fence (a newline followed by three hyphens) occurs inside it, and
  \<open>safe_load\<close> of the text without its last newline gives \<open>fm\<close> back.
\<close>

definition yaml_roundtrip :: "('fm \<Rightarrow> string) \<Rightarrow> (string \<Rightarrow> error + 'fm) \<Rightarrow> 'fm \<Rightarrow> bool" where
  "yaml_roundtrip dump load fm =
     (let d = dump fm; y = butlast d
      in d \<noteq> [] \<and> last d = CHR 0x0A \<and> until_fence (y @ nl @ ''---'') = Some y \<and>
         load y = Inr fm)"

text \<open>Every example word has the three keys that the body of the document prints.\<close>

definition words_complete :: "Character \<Rightarrow> bool" where
  "words_complete c =
     list_all (\<lambda>w. has_key w ''word'' \<and> has_key w ''pinyin'' \<and> has_key w ''meaning'')
       (c_example_words c)"

text \<open>A row of the import builds its value without an exception.\<close>

definition row_builds :: "lib \<Rightarrow> row \<Rightarrow> bool" where
  "row_builds L row =
     (if is_radical L row then \<not> isl (radical_of_row L row)
      else \<not> isl (character_of_row L row))"

text \<open>
  A library instance for the examples: the string operations on ASCII text, and a YAML
  stub that knows the documents of a table.
\<close>

definition ascii_lower :: "string \<Rightarrow> string" where
  "ascii_lower s =
     map (\<lambda>c. get_or (map_of (zip ''ABCDEFGHIJKLMNOPQRSTUVWXYZ'' ''abcdefghijklmnopqrstuvwxyz'') c)
            c) s"

definition is_space :: "char \<Rightarrow> bool" where
  "is_space c = (c \<in> set [CHR '' '', CHR 0x09, CHR 0x0A, CHR 0x0B, CHR 0x0C, CHR 0x0D])"

definition ascii_strip :: "string \<Rightarrow> string" where
  "ascii_strip s = rev (dropWhile is_space (rev (dropWhile is_space s)))"

definition ascii_isdigit :: "string \<Rightarrow> bool" where
  "ascii_isdigit s = (s \<noteq> [] \<and> list_all (\<lambda>c. c \<in> set ''0123456789'') s)"

definition ascii_int :: "string \<Rightarrow> error + int" where
  "ascii_int s =
     (if ascii_isdigit s
      then Inr (foldl (\<lambda>n c. 10 * n + get_or (map_of (zip ''0123456789'' [0, 1, 2, 3, 4, 5, 6, 7, 8, 9]) c) 0)
                  0 s)
      else Inl ValueError)"

definition stub_dump :: "(string \<times> 'fm) list \<Rightarrow> 'fm \<Rightarrow> string" where
  "stub_dump docs fm = (case find (\<lambda>(y, f). f = fm) docs of None \<Rightarrow> [] | Some (y, f) \<Rightarrow> y @ nl)"

definition stub_load :: "(string \<times> 'fm) list \<Rightarrow> string \<Rightarrow> error + 'fm" where
  "stub_load docs y = (case map_of docs y of None \<Rightarrow> Inl YAMLError | Some fm \<Rightarrow> Inr fm)"

definition mu :: string where
  "mu = [CHR 0xE6, CHR 0x9C, CHR 0xA8]"

definition lin :: string where
  "lin = [CHR 0xE6, CHR 0x9E, CHR 0x97]"

definition wood :: Radical where
  "wood = \<lparr> r_character = mu, r_pinyin = ''mu'', r_meaning = ''wood'', r_type = SEMANTIC,
            r_strokes = 4,
            r_stroke_order = [HORIZONTAL, VERTICAL, LEFT_DIAGONAL, RIGHT_DIAGONAL],
            r_common_characters = [lin], r_mnemonic = ''a tree'' \<rparr>"

definition forest :: Character where
  "forest = \<lparr> c_character = lin, c_pinyin = ''Lin'', c_tone = 2, c_meaning = [''forest''],
              c_radicals = [mu, mu], c_strokes = 8, c_stroke_order = [], c_components = [],
              c_hsk_level = 0, c_frequency_rank = 0, c_mnemonic = [], c_example_words = [],
              c_tags = [] \<rparr>"

definition mystery :: radical_frontmatter where
  "mystery = \<lparr> rf_character = Some ''x'', rf_pinyin = None, rf_meaning = None,
               rf_type = Some ''mystery'', rf_strokes = None, rf_mnemonic = None,
               rf_stroke_order = None, rf_common_characters = None \<rparr>"

definition bare :: radical_frontmatter where
  "bare = \<lparr> rf_character = Some ''x'', rf_pinyin = None, rf_meaning = None, rf_type = None,
            rf_strokes = None, rf_mnemonic = None, rf_stroke_order = None,
            rf_common_characters = None \<rparr>"

definition zig :: character_frontmatter where
  "zig = \<lparr> cf_character = Some ''y'', cf_pinyin = None, cf_tone = None, cf_meaning = None,
           cf_radicals = None, cf_strokes = None, cf_mnemonic = None,
           cf_stroke_order = Some [''zig''], cf_components = None, cf_example_words = None,
           cf_tags = None, cf_hsk_level = None, cf_frequency_rank = None \<rparr>"

definition radical_docs :: "(string \<times> radical_frontmatter) list" where
  "radical_docs =
     [(''character: mu'', radical_frontmatter_of wood),
      (''type: mystery'', mystery),
      (''character: x'', bare),
      (''stroke_order: [zig]'', bare\<lparr>rf_stroke_order := Some [''zig'']\<rparr>)]"

definition character_docs :: "(string \<times> character_frontmatter) list" where
  "character_docs =
     [(''character: lin'', character_frontmatter_of forest), (''stroke_order: [zig]'', zig)]"

definition example_lib :: lib where
  "example_lib =
     \<lparr> yaml_dump_radical = stub_dump radical_docs,
       yaml_load_radical = stub_load radical_docs,
       yaml_dump_character = stub_dump character_docs,
       yaml_load_character = stub_load character_docs,
       json_dumps = (\<lambda>xs. ''['' @ join '', '' xs @ '']''),
       lower = ascii_lower,
       strip = ascii_strip,
       isdigit = ascii_isdigit,
       int_of_str = ascii_int \<rparr>"

definition empty_store :: store where
  "empty_store = \<lparr> radicals = [], characters = [], radical_index = [], files = [] \<rparr>"

definition forest_store :: store where
  "forest_store =
     \<lparr> radicals = [(mu, wood)], characters = [(lin, forest)], radical_index = [(mu, [lin])],
       files = [] \<rparr>"

text \<open>A record file whose metadata block is the text \<open>y\<close>.\<close>

definition fenced :: "string \<Rightarrow> string" where
  "fenced y = ''---'' @ nl @ y @ nl @ ''---'' @ nl @ ''# body''"

definition forest_doc :: string where
  "forest_doc = fenced ''character: lin''"

definition mystery_doc :: string where
  "mystery_doc = fenced ''type: mystery''"

text \<open>The values of the two enumerations.\<close>

definition role_literals :: "string list" where
  "role_literals = map RadicalType_value [SEMANTIC, PHONETIC, BOTH, UNKNOWN]"

definition stroke_literals :: "string list" where
  "stroke_literals =
     map StrokeType_value
       [HORIZONTAL, VERTICAL, LEFT_DIAGONAL, RIGHT_DIAGONAL, DOT, HOOK, RISING, BEND]"

definition disk_store :: store where
  "disk_store =
     \<lparr> radicals = [], characters = [], radical_index = [],
       files = [((root_dir, CharactersDir, lin), forest_doc)] \<rparr>"

text \<open>
  The representation invariant of the \<open>characters\<close> dictionary: one entry for each key,
  filed under the \<open>character\<close> field of its value, as \<open>add_character\<close> and
  \<open>load_data\<close> store it.
\<close>

definition keys_match :: "store \<Rightarrow> bool" where
  "keys_match st =
     (distinct (map fst (characters st)) \<and>
      list_all (\<lambda>(k, c). k = c_character c) (characters st))"

definition stale_store :: store where
  "stale_store =
     \<lparr> radicals = [(mu, wood)], characters = [(lin, forest)],
       radical_index = [(''shui'', [''he'']), (mu, [lin, ''gone''])], files = [] \<rparr>"

text \<open>Rows of an import table: a radical, a character, and the character with a bad cell.\<close>

definition row_shui :: row where
  "row_shui =
     [''is_radical'' \<mapsto> ''TRUE'', ''character'' \<mapsto> ''shui'', ''pinyin'' \<mapsto> ''shui'',
      ''meaning'' \<mapsto> ''water'', ''type'' \<mapsto> ''semantic'', ''strokes'' \<mapsto> ''4'']"

definition row_he :: row where
  "row_he =
     [''is_radical'' \<mapsto> ''false'', ''character'' \<mapsto> ''he'', ''pinyin'' \<mapsto> ''he'',
      ''tone'' \<mapsto> ''2'', ''meaning'' \<mapsto> ''river, stream'', ''radicals'' \<mapsto> ''shui'',
      ''strokes'' \<mapsto> ''8'', ''hsk_level'' \<mapsto> ''n/a'']"

definition row_bad :: row where
  "row_bad = row_he(''character'' \<mapsto> ''hu'', ''strokes'' \<mapsto> ''eight'')"

definition river :: Character where
  "river = \<lparr> c_character = ''he'', c_pinyin = ''he'', c_tone = 2,
             c_meaning = [''river'', ''stream''], c_radicals = [''shui''], c_strokes = 8,
             c_stroke_order = [], c_components = [], c_hsk_level = 0, c_frequency_rank = 0,
             c_mnemonic = [], c_example_words = [], c_tags = [] \<rparr>"

definition water :: Radical where
  "water = \<lparr> r_character = ''shui'', r_pinyin = ''shui'', r_meaning = ''water'',
             r_type = SEMANTIC, r_strokes = 4, r_stroke_order = [], r_common_characters = [],
             r_mnemonic = [] \<rparr>"

definition river_store :: store where
  "river_store =
     \<lparr> radicals = [(''shui'', water)], characters = [(''he'', river)], radical_index = [(''shui'', [''he''])],
       files = [] \<rparr>"

text \<open>
  Every key of the store \<open>st\<close> has its plain file, unless it was a key of \<open>st0\<close>
  already.
\<close>

definition on_disk :: "store \<Rightarrow> store \<Rightarrow> bool" where
  "on_disk st0 st \<longleftrightarrow>
     (\<forall>k. has_key (characters st) k \<longrightarrow>
          has_key (files st) (root_dir, CharactersDir, k) \<or> has_key (characters st0) k) \<and>
     (\<forall>k. has_key (radicals st) k \<longrightarrow>
          has_key (files st) (root_dir, RadicalsDir, k) \<or> has_key (radicals st0) k)"

text \<open>
  Python's \<open>str.isdigit\<close> accepts more than \<open>int\<close> parses: the superscript two
  (U+00B2) is a digit string, and \<open>int\<close> raises ValueError on it. A library instance
  with that behaviour on this text, and a row whose \<open>hsk_level\<close> cell holds it.
\<close>

definition superscript_two :: string where
  "superscript_two = [CHR 0xC2, CHR 0xB2]"

definition unicode_lib :: lib where
  "unicode_lib = example_lib\<lparr>isdigit := (\<lambda>s. ascii_isdigit s \<or> s = superscript_two)\<rparr>"

definition row_sq :: row where
  "row_sq = row_he(''hsk_level'' \<mapsto> superscript_two)"

section \<open>Lemmas\<close>

subsection \<open>Insertion and the inverted index\<close>

lemma str_in_iff: "str_in q s \<longleftrightarrow> sublist q s"
  by (induction s) (auto simp: sublist_Cons_right)

lemma str_in_Nil: "str_in [] s" by (cases s) auto
lemma str_in_refl: "str_in s s" by (cases s) auto

lemma files_only_write [simp]:
  "radicals (write_text p t st) = radicals st"
  "characters (write_text p t st) = characters st"
  "radical_index (write_text p t st) = radical_index st"
  by (simp_all add: write_text_def)

lemma save_radical_mem [simp]:
  "radicals (save_radical L r st) = radicals st"
  "characters (save_radical L r st) = characters st"
  "radical_index (save_radical L r st) = radical_index st"
  by (simp_all add: save_radical_def Let_def)

lemma save_character_mem:
  "radicals (snd (save_character L c st)) = radicals st"
  "characters (snd (save_character L c st)) = characters st"
  "radical_index (snd (save_character L c st)) = radical_index st"
  by (simp_all add: save_character_def Let_def split: sum.splits)

lemma update_radical_index_mem [simp]:
  "radicals (update_radical_index c st) = radicals st"
  "characters (update_radical_index c st) = characters st"
  "files (update_radical_index c st) = files st"
  by (simp_all add: update_radical_index_def)

lemma has_key_update: "has_key (AList.update k v d) k' \<longleftrightarrow> k' = k \<or> has_key d k'"
  by (simp add: has_key_def update_conv')

lemma index_add_same:
  "\<exists>s. map_of (index_add ch idx r) r = Some s \<and> ch \<in> set s"
  by (simp add: index_add_def update_conv' set_add_def split: option.splits)

lemma index_add_keeps:
  assumes "map_of idx r' = Some s" "x \<in> set s"
  shows "\<exists>s'. map_of (index_add ch idx r) r' = Some s' \<and> x \<in> set s'"
  using assms by (auto simp: index_add_def update_conv' set_add_def split: option.splits)

lemma foldl_index_add_keeps:
  assumes "map_of idx r' = Some s" "x \<in> set s"
  shows "\<exists>s'. map_of (foldl (index_add ch) idx rs) r' = Some s' \<and> x \<in> set s'"
  using assms
proof (induction rs arbitrary: idx s)
  case Nil then show ?case by simp
next
  case (Cons r rs)
  from index_add_keeps[OF Cons.prems, of ch r]
  obtain s' where "map_of (index_add ch idx r) r' = Some s'" "x \<in> set s'" by blast
  from Cons.IH[OF this] show ?case by simp
qed

lemma foldl_index_add_member:
  assumes "r \<in> set rs"
  shows "\<exists>s. map_of (foldl (index_add ch) idx rs) r = Some s \<and> ch \<in> set s"
  using assms
proof (induction rs arbitrary: idx)
  case Nil then show ?case by simp
next
  case (Cons a rs)
  show ?case
  proof (cases "a = r")
    case True
    obtain s where "map_of (index_add ch idx r) r = Some s" "ch \<in> set s"
      using index_add_same by blast
    from foldl_index_add_keeps[OF this] show ?thesis using True by simp
  next
    case False
    with Cons.prems have "r \<in> set rs" by simp
    from Cons.IH[OF this] show ?thesis by simp
  qed
qed

lemma add_character_index:
  assumes "add_character L c st = (Inr True, st')" "r \<in> set (c_radicals c)"
  shows "\<exists>s. map_of (radical_index st') r = Some s \<and> c_character c \<in> set s"
proof -
  let ?st1 = "st\<lparr>characters := AList.update (c_character c) c (characters st)\<rparr>"
  from assms(1) have "st' = snd (save_character L c (update_radical_index c ?st1))"
    by (auto simp: add_character_def Let_def split: if_splits prod.splits sum.splits)
  then have "radical_index st' = foldl (index_add (c_character c)) (radical_index st) (c_radicals c)"
    by (simp add: save_character_mem update_radical_index_def)
  then show ?thesis using foldl_index_add_member[OF assms(2)] by simp
qed



lemma indexed_iff: "indexed st r ch \<longleftrightarrow> (\<exists>s. map_of (radical_index st) r = Some s \<and> ch \<in> set s)"
  by (simp add: indexed_def split: option.splits)

lemma load_character_keeps: "indexed st r ch \<Longrightarrow> indexed (load_character L st content) r ch"
  unfolding indexed_iff load_character_def update_radical_index_def
  by (auto split: option.splits intro: foldl_index_add_keeps)

lemma foldl_load_character_keeps:
  "indexed st r ch \<Longrightarrow> indexed (foldl (load_character L) st cs) r ch"
  by (induction cs arbitrary: st) (auto intro: load_character_keeps)

lemma load_character_index:
  "parse_character_file L content = Some c \<Longrightarrow> r \<in> set (c_radicals c) \<Longrightarrow>
   indexed (load_character L st content) r (c_character c)"
  unfolding indexed_iff load_character_def update_radical_index_def
  by (auto intro: foldl_index_add_member)

lemma foldl_load_character_index:
  assumes "content \<in> set cs" "parse_character_file L content = Some c" "r \<in> set (c_radicals c)"
  shows "indexed (foldl (load_character L) st cs) r (c_character c)"
  using assms(1)
proof (induction cs arbitrary: st)
  case Nil then show ?case by simp
next
  case (Cons a cs)
  show ?case
  proof (cases "a = content")
    case True
    then show ?thesis
      using foldl_load_character_keeps[OF load_character_index[OF assms(2,3)]] by simp
  next
    case False
    with Cons.prems have "content \<in> set cs" by simp
    from Cons.IH[OF this] show ?thesis by simp
  qed
qed

lemma load_radical_files [simp]: "files (load_radical L st content) = files st"
  by (simp add: load_radical_def split: option.splits)

lemma foldl_load_radical_files [simp]: "files (foldl (load_radical L) st cs) = files st"
  by (induction cs arbitrary: st) auto

lemma glob_cong: "files st1 = files st \<Longrightarrow> glob d st1 = glob d st"
  by (simp add: glob_def)

lemma load_data_index:
  assumes "content \<in> set (glob CharactersDir st)" "parse_character_file L content = Some c"
    "r \<in> set (c_radicals c)"
  shows "indexed (load_data L st) r (c_character c)"
proof -
  have "glob CharactersDir (foldl (load_radical L) st (glob RadicalsDir st)) = glob CharactersDir st"
    by (rule glob_cong) simp
  then show ?thesis
    using foldl_load_character_index[OF _ assms(2,3), of "glob CharactersDir st"] assms(1)
    by (simp add: load_data_def Let_def)
qed

lemma traverse_word_lines:
  "list_all (\<lambda>w. has_key w ''word'' \<and> has_key w ''pinyin'' \<and> has_key w ''meaning'') ws \<Longrightarrow>
   \<exists>ls. traverse example_word_line ws = Inr ls"
  by (induction ws) (auto simp: example_word_line_def getitem_def has_key_def split: option.splits)

lemma example_word_lines_ok: "words_complete c \<Longrightarrow> \<exists>ws. example_word_lines c = Inr ws"
  using traverse_word_lines[of "c_example_words c"]
  by (auto simp: words_complete_def example_word_lines_def)

lemma save_character_ok: "words_complete c \<Longrightarrow> fst (save_character L c st) = Inr ()"
  using example_word_lines_ok[of c]
  by (auto simp: save_character_def character_content_def character_obsidian_content_def Let_def)

lemma add_character_ok:
  "\<not> has_key (characters st) (c_character c) \<Longrightarrow> words_complete c \<Longrightarrow>
   fst (add_character L c st) = Inr True"
proof -
  assume a: "\<not> has_key (characters st) (c_character c)" and w: "words_complete c"
  let ?st2 = "update_radical_index c
      (st\<lparr>characters := AList.update (c_character c) c (characters st)\<rparr>)"
  obtain res st3 where s: "save_character L c ?st2 = (res, st3)" by (cases "save_character L c ?st2")
  with save_character_ok[OF w, of L ?st2] have "res = Inr ()" by simp
  with a s show ?thesis by (simp add: add_character_def Let_def)
qed

lemma add_character_stores:
  assumes "add_character L c st = (Inr True, st')"
  shows "characters st' = AList.update (c_character c) c (characters st)"
proof -
  let ?st1 = "st\<lparr>characters := AList.update (c_character c) c (characters st)\<rparr>"
  from assms have "st' = snd (save_character L c (update_radical_index c ?st1))"
    by (auto simp: add_character_def Let_def split: if_splits prod.splits sum.splits)
  then show ?thesis by (simp add: save_character_mem)
qed

text \<open>
  Claim C3. Adding a character whose key is already in the store returns \<open>False\<close> and
  leaves the whole store, files included, as it was; the same holds for a radical. After
  a successful first insert, a second insert under the same key is rejected and the
  dictionary still holds the first value.
\<close>

theorem add_existing_key_is_rejected:
  "(has_key (characters st) (c_character c) \<longrightarrow> add_character L c st = (Inr False, st)) \<and>
   (has_key (radicals st) (r_character r) \<longrightarrow> add_radical L r st = (Inr False, st)) \<and>
   (add_character L c1 st = (Inr True, st1) \<and> c_character c2 = c_character c1 \<longrightarrow>
      add_character L c2 st1 = (Inr False, st1) \<and>
      map_of (characters st1) (c_character c1) = Some c1)"
proof (intro conjI impI)
  assume "has_key (characters st) (c_character c)"
  then show "add_character L c st = (Inr False, st)" by (simp add: add_character_def)
next
  assume "has_key (radicals st) (r_character r)"
  then show "add_radical L r st = (Inr False, st)" by (simp add: add_radical_def)
next
  assume a: "add_character L c1 st = (Inr True, st1) \<and> c_character c2 = c_character c1"
  then have chars: "characters st1 = AList.update (c_character c1) c1 (characters st)"
    using add_character_stores by blast
  then show "map_of (characters st1) (c_character c1) = Some c1"
    by (simp add: update_conv')
  then have "has_key (characters st1) (c_character c2)" using a by (simp add: has_key_def)
  then show "add_character L c2 st1 = (Inr False, st1)" by (simp add: add_character_def)
qed

theorem add_existing_key_is_rejected_witness:
  "has_key (characters forest_store) (c_character forest) \<and>
   add_character example_lib forest forest_store = (Inr False, forest_store) \<and>
   has_key (radicals forest_store) (r_character wood) \<and>
   add_radical example_lib wood forest_store = (Inr False, forest_store) \<and>
   fst (add_character example_lib forest empty_store) = Inr True \<and>
   add_character example_lib (forest\<lparr>c_pinyin := ''Mori''\<rparr>)
       (snd (add_character example_lib forest empty_store)) =
     (Inr False, snd (add_character example_lib forest empty_store)) \<and>
   map_of (characters (snd (add_character example_lib forest empty_store))) lin = Some forest"
proof -
  have k1: "has_key (characters forest_store) (c_character forest)"
    by (simp add: has_key_def forest_store_def forest_def)
  have k2: "has_key (radicals forest_store) (r_character wood)"
    by (simp add: has_key_def forest_store_def wood_def)
  have ok: "fst (add_character example_lib forest empty_store) = Inr True"
    by (rule add_character_ok) (simp_all add: has_key_def empty_store_def words_complete_def forest_def)
  then have run: "add_character example_lib forest empty_store =
      (Inr True, snd (add_character example_lib forest empty_store))"
    by (metis prod.collapse)
  have same: "c_character (forest\<lparr>c_pinyin := ''Mori''\<rparr>) = c_character forest" by simp
  have lin: "c_character forest = lin" by (simp add: forest_def)
  show ?thesis
    using add_existing_key_is_rejected[of forest_store forest example_lib wood forest forest_store forest]
      add_existing_key_is_rejected[of empty_store forest example_lib wood forest
        "snd (add_character example_lib forest empty_store)" "forest\<lparr>c_pinyin := ''Mori''\<rparr>"]
      k1 k2 ok run same lin
    by simp
qed

text \<open>
  Claim C2. After a successful \<open>add_character\<close>, and after \<open>load_data\<close> for every
  character decoded from a file of the plain root, the index maps each radical of the
  character to a set that contains the character's key; a radical that was no key of the
  index gets a new set holding just that key.
\<close>

theorem index_contains_added_character:
  "(add_character L c st = (Inr True, st') \<longrightarrow>
      (\<forall>r\<in>set (c_radicals c). indexed st' r (c_character c))) \<and>
   (\<forall>content\<in>set (glob CharactersDir st).
      parse_character_file L content = Some c \<longrightarrow>
      (\<forall>r\<in>set (c_radicals c). indexed (load_data L st) r (c_character c))) \<and>
   (map_of idx r = None \<longrightarrow> map_of (index_add ch idx r) r = Some [ch])"
proof (intro conjI impI ballI)
  fix r assume "add_character L c st = (Inr True, st')" "r \<in> set (c_radicals c)"
  then show "indexed st' r (c_character c)"
    using add_character_index by (auto simp: indexed_iff)
next
  fix content r
  assume "content \<in> set (glob CharactersDir st)" "parse_character_file L content = Some c"
    "r \<in> set (c_radicals c)"
  then show "indexed (load_data L st) r (c_character c)" by (rule load_data_index)
next
  assume "map_of idx r = None"
  then show "map_of (index_add ch idx r) r = Some [ch]"
    by (simp add: index_add_def update_conv' set_add_def)
qed

theorem index_contains_added_character_witness:
  "fst (add_character example_lib forest empty_store) = Inr True \<and>
   mu \<in> set (c_radicals forest) \<and>
   indexed (snd (add_character example_lib forest empty_store)) mu lin \<and>
   forest_doc \<in> set (glob CharactersDir disk_store) \<and>
   parse_character_file example_lib forest_doc = Some forest \<and>
   indexed (load_data example_lib disk_store) mu lin \<and>
   map_of ([] :: (string \<times> string list) list) mu = None \<and>
   map_of (index_add lin [] mu) mu = Some [lin]"
proof -
  have ok: "fst (add_character example_lib forest empty_store) = Inr True"
    by (rule add_character_ok)
      (simp_all add: has_key_def empty_store_def words_complete_def forest_def)
  then have run: "add_character example_lib forest empty_store =
      (Inr True, snd (add_character example_lib forest empty_store))"
    by (metis prod.collapse)
  have r: "mu \<in> set (c_radicals forest)" and k: "c_character forest = lin"
    by (simp_all add: forest_def)
  have g: "forest_doc \<in> set (glob CharactersDir disk_store)"
    by (simp add: glob_def disk_store_def)
  have p: "parse_character_file example_lib forest_doc = Some forest"
    by (simp add: parse_character_file_def parse_character_text_def frontmatter_block_def
        forest_doc_def fenced_def nl_def example_lib_def character_docs_def stub_load_def
        character_frontmatter_of_def
        forest_def parse_stroke_order_def get_or_def list_if_any_def)
  show ?thesis
    using index_contains_added_character[where L = example_lib and c = forest
        and st = empty_store and st' = "snd (add_character example_lib forest empty_store)"
        and idx = "[]" and r = mu and ch = lin]
      index_contains_added_character[where L = example_lib and c = forest
        and st = disk_store and idx = "[]" and r = mu and ch = lin]
      ok run r k g p
    by auto
qed

subsection \<open>Queries and statistics\<close>

lemma traverse_getitem:
  "list_all (has_key d) ks \<Longrightarrow> traverse (getitem d) ks = Inr (map (\<lambda>k. the (map_of d k)) ks)"
  by (induction ks) (auto simp: getitem_def has_key_def split: option.splits)

lemma traverse_getitem_filter:
  "traverse (getitem d) (filter (has_key d) s) = Inr (List.map_filter (map_of d) s)"
proof -
  have "filter (has_key d) s = filter (\<lambda>x. map_of d x \<noteq> None) s"
    by (rule filter_cong) (simp_all add: has_key_def)
  moreover have "list_all (has_key d) (filter (has_key d) s)"
    by (simp add: list_all_iff)
  ultimately show ?thesis
    using traverse_getitem[of d "filter (has_key d) s"]
    by (simp add: List.map_filter_def comp_def)
qed

text \<open>
  Claim C5. \<open>get_characters_by_radical\<close> never raises: for a radical that is no key of
  the index it returns the empty list, and otherwise exactly the characters stored under
  the keys of the index entry that are keys of \<open>characters\<close>, so that a stale key of
  the index is left out.
\<close>

theorem characters_by_radical_is_defensive:
  "(\<not> has_key (radical_index st) r \<longrightarrow> get_characters_by_radical st r = Inr []) \<and>
   (map_of (radical_index st) r = Some s \<longrightarrow>
      get_characters_by_radical st r = Inr (List.map_filter (map_of (characters st)) s) \<and>
      set (List.map_filter (map_of (characters st)) s) =
        {c. \<exists>k\<in>set s. map_of (characters st) k = Some c}) \<and>
   (\<exists>cs. get_characters_by_radical st r = Inr cs)"
proof (intro conjI impI)
  show "\<not> has_key (radical_index st) r \<Longrightarrow> get_characters_by_radical st r = Inr []"
    by (simp add: get_characters_by_radical_def)
  show "\<exists>cs. get_characters_by_radical st r = Inr cs"
    by (simp add: get_characters_by_radical_def traverse_getitem_filter)
  assume "map_of (radical_index st) r = Some s"
  then show "get_characters_by_radical st r = Inr (List.map_filter (map_of (characters st)) s)"
    by (simp add: get_characters_by_radical_def traverse_getitem_filter has_key_def get_or_def)
  show "set (List.map_filter (map_of (characters st)) s) =
        {c. \<exists>k\<in>set s. map_of (characters st) k = Some c}"
    by (force simp: List.map_filter_def image_iff)
qed

lemma search_foldl:
  "foldl (search_step L q) acc cs =
   acc @ filter (\<lambda>c. str_in q (c_character c) \<or> str_in (lower L q) (lower L (c_pinyin c)) \<or>
        list_ex (\<lambda>m. str_in (lower L q) (lower L m)) (c_meaning c) \<or>
        list_ex (\<lambda>t. str_in (lower L q) (lower L t)) (c_tags c)) cs"
  by (induction cs arbitrary: acc) (auto simp: search_step_def)

lemma count_list_filter_le: "count_list (filter P xs) c \<le> count_list xs c"
  by (induction xs) auto

lemma search_filter:
  "search_characters L st q =
   filter (\<lambda>c. str_in q (c_character c) \<or> str_in (lower L q) (lower L (c_pinyin c)) \<or>
        list_ex (\<lambda>m. str_in (lower L q) (lower L m)) (c_meaning c) \<or>
        list_ex (\<lambda>t. str_in (lower L q) (lower L t)) (c_tags c)) (map snd (characters st))"
  by (simp add: search_characters_def search_foldl)






lemma keys_match_distinct_values:
  assumes "keys_match st" shows "distinct (map snd (characters st))"
proof -
  have "\<forall>x\<in>set (characters st). fst x = c_character (snd x)"
    using assms by (auto simp: keys_match_def list_all_iff)
  then have eq: "map fst (characters st) = map (\<lambda>x. c_character (snd x)) (characters st)"
    by (simp only: map_eq_conv)
  have d: "distinct (map fst (characters st))"
    using assms by (simp add: keys_match_def)
  have "distinct (map c_character (map snd (characters st)))"
    using d unfolding eq by (simp add: comp_def)
  then show ?thesis by (metis distinct_map)
qed

text \<open>
  Claim C4. The empty query returns every stored character, each entry of the dictionary
  once and in its order; the query \<open>c.character\<close> returns \<open>c\<close> for every stored
  \<open>c\<close>. A character is returned exactly when the query occurs in its grapheme, or the
  lowered query occurs in its lowered pinyin, in one of its lowered meanings or in one of
  its lowered tags; it is returned no more often than it is stored, hence never twice in
  a store that files each character under its own key.
\<close>

theorem search_is_substring_filter:
  "search_characters L st [] = map snd (characters st) \<and>
   (\<forall>c\<in>set (map snd (characters st)). c \<in> set (search_characters L st (c_character c))) \<and>
   (c \<in> set (search_characters L st q) \<longleftrightarrow>
      c \<in> set (map snd (characters st)) \<and>
      (sublist q (c_character c) \<or> sublist (lower L q) (lower L (c_pinyin c)) \<or>
       (\<exists>m\<in>set (c_meaning c). sublist (lower L q) (lower L m)) \<or>
       (\<exists>t\<in>set (c_tags c). sublist (lower L q) (lower L t)))) \<and>
   count_list (search_characters L st q) c \<le> count_list (map snd (characters st)) c \<and>
   (keys_match st \<longrightarrow> distinct (search_characters L st q))"
proof (intro conjI ballI impI)
  show "search_characters L st [] = map snd (characters st)"
    by (simp add: search_filter str_in_Nil)
  show "c \<in> set (search_characters L st (c_character c))" if "c \<in> set (map snd (characters st))" for c
    using that by (simp add: search_filter str_in_refl)
  show "c \<in> set (search_characters L st q) \<longleftrightarrow>
      c \<in> set (map snd (characters st)) \<and>
      (sublist q (c_character c) \<or> sublist (lower L q) (lower L (c_pinyin c)) \<or>
       (\<exists>m\<in>set (c_meaning c). sublist (lower L q) (lower L m)) \<or>
       (\<exists>t\<in>set (c_tags c). sublist (lower L q) (lower L t)))"
    by (simp add: search_filter str_in_iff list_ex_iff)
  show "count_list (search_characters L st q) c \<le> count_list (map snd (characters st)) c"
    unfolding search_filter by (rule count_list_filter_le)
  show "distinct (search_characters L st q)" if "keys_match st"
    using keys_match_distinct_values[OF that] by (simp add: search_filter)
qed

lemma set_update_subset: "set (AList.update k v al) \<subseteq> insert (k, v) (set al)"
  by (induction al) auto

lemma radical_count_foldl:
  assumes "(r, n) \<in> set (foldl (\<lambda>d (radical, chars). AList.update radical (length chars) d) acc idx)"
  shows "(r, n) \<in> set acc \<or> (\<exists>s. (r, s) \<in> set idx \<and> n = length s)"
  using assms
proof (induction idx arbitrary: acc)
  case Nil then show ?case by simp
next
  case (Cons a idx)
  obtain k s where a: "a = (k, s)" by (cases a)
  from Cons.prems a
  have "(r, n) \<in> set (foldl (\<lambda>d (radical, chars). AList.update radical (length chars) d)
      (AList.update k (length s) acc) idx)" by simp
  from Cons.IH[OF this] show ?case
  proof
    assume "(r, n) \<in> set (AList.update k (length s) acc)"
    then have "(r, n) = (k, length s) \<or> (r, n) \<in> set acc"
      using set_update_subset[of k "length s" acc] by auto
    then show ?thesis using a by auto
  next
    assume "\<exists>s. (r, s) \<in> set idx \<and> n = length s"
    then show ?thesis by auto
  qed
qed

lemma radical_count_entries:
  "(r, n) \<in> set (radical_count idx) \<Longrightarrow> \<exists>s. (r, s) \<in> set idx \<and> n = length s"
  using radical_count_foldl[of r n "[]" idx] by (simp add: radical_count_def)

lemma sorted_desc_take:
  "sorted_wrt (\<lambda>a b. snd b \<le> (snd a :: nat)) (take n (sort_key (\<lambda>x. - int (snd x)) xs))"
proof -
  have "sorted (map (\<lambda>x. - int (snd x)) (sort_key (\<lambda>x. - int (snd x)) xs))"
    by (rule sorted_sort_key)
  then have "sorted_wrt (\<lambda>a b. snd b \<le> (snd a :: nat)) (sort_key (\<lambda>x. - int (snd x)) xs)"
    by (simp add: sorted_map)
  then show ?thesis by (rule sorted_wrt_take)
qed

text \<open>
  Claim C6. \<open>generate_stats\<close> reports the number of stored characters and of stored
  radicals, and a list of at most ten radicals, sorted by count in descending order,
  where the count of a radical is the size of its entry in the index.
\<close>

theorem stats_counts_and_top_radicals:
  "total_characters (generate_stats st) = length (characters st) \<and>
   total_radicals (generate_stats st) = length (radicals st) \<and>
   (distinct (map fst (characters st)) \<longrightarrow>
      total_characters (generate_stats st) = card (dom (map_of (characters st)))) \<and>
   (distinct (map fst (radicals st)) \<longrightarrow>
      total_radicals (generate_stats st) = card (dom (map_of (radicals st)))) \<and>
   length (most_common_radicals (generate_stats st)) \<le> 10 \<and>
   sorted_wrt (\<lambda>a b. snd b \<le> snd a) (most_common_radicals (generate_stats st)) \<and>
   (\<forall>(r, n)\<in>set (most_common_radicals (generate_stats st)).
      \<exists>s. (r, s) \<in> set (radical_index st) \<and> n = length s)"
proof (intro conjI impI)
  show "total_characters (generate_stats st) = length (characters st)"
    by (simp add: generate_stats_def)
  show "total_radicals (generate_stats st) = length (radicals st)"
    by (simp add: generate_stats_def)
  show "total_characters (generate_stats st) = card (dom (map_of (characters st)))"
    if "distinct (map fst (characters st))"
    using that distinct_card[of "map fst (characters st)"]
    by (simp add: generate_stats_def dom_map_of_conv_image_fst)
  show "total_radicals (generate_stats st) = card (dom (map_of (radicals st)))"
    if "distinct (map fst (radicals st))"
    using that distinct_card[of "map fst (radicals st)"]
    by (simp add: generate_stats_def dom_map_of_conv_image_fst)
  show "length (most_common_radicals (generate_stats st)) \<le> 10"
    by (simp add: generate_stats_def)
  show "sorted_wrt (\<lambda>a b. snd b \<le> snd a) (most_common_radicals (generate_stats st))"
    by (simp add: generate_stats_def sorted_desc_take)
  show "\<forall>(r, n)\<in>set (most_common_radicals (generate_stats st)).
      \<exists>s. (r, s) \<in> set (radical_index st) \<and> n = length s"
  proof (clarify)
    fix r n assume "(r, n) \<in> set (most_common_radicals (generate_stats st))"
    then have "(r, n) \<in> set (radical_count (radical_index st))"
      by (auto simp: generate_stats_def dest: in_set_takeD)
    then show "\<exists>s. (r, s) \<in> set (radical_index st) \<and> n = length s"
      by (rule radical_count_entries)
  qed
qed

lemma keys_match_update:
  assumes "distinct (map fst al)" "list_all (\<lambda>(k, c). k = c_character c) al"
  shows "distinct (map fst (AList.update (c_character c) c al)) \<and>
         list_all (\<lambda>(k, c). k = c_character c) (AList.update (c_character c) c al)"
  using assms set_update_subset[of "c_character c" c al]
  by (auto simp: distinct_update list_all_iff)

lemma add_character_mem:
  "characters (snd (add_character L c st)) =
     (if has_key (characters st) (c_character c) then characters st
      else AList.update (c_character c) c (characters st))"
  "radicals (snd (add_character L c st)) = radicals st"
proof -
  let ?st2 = "update_radical_index c
      (st\<lparr>characters := AList.update (c_character c) c (characters st)\<rparr>)"
  obtain res st3 where s: "save_character L c ?st2 = (res, st3)"
    by (cases "save_character L c ?st2")
  from save_character_mem(1,2)[of L c ?st2] s
  have "characters st3 = characters ?st2" "radicals st3 = radicals ?st2" by simp_all
  with s show "characters (snd (add_character L c st)) =
     (if has_key (characters st) (c_character c) then characters st
      else AList.update (c_character c) c (characters st))"
    "radicals (snd (add_character L c st)) = radicals st"
    by (cases res; simp add: add_character_def Let_def)+
qed

lemma keys_match_add_character: "keys_match st \<Longrightarrow> keys_match (snd (add_character L c st))"
  using keys_match_update[of "characters st" c]
  by (simp add: keys_match_def add_character_mem)

theorem characters_by_radical_is_defensive_witness:
  "\<not> has_key (radical_index stale_store) ''absent'' \<and>
   get_characters_by_radical stale_store ''absent'' = Inr [] \<and>
   map_of (radical_index stale_store) mu = Some [lin, ''gone''] \<and>
   get_characters_by_radical stale_store mu = Inr [forest]"
proof -
  have a: "\<not> has_key (radical_index stale_store) ''absent''"
    by (simp add: has_key_def stale_store_def mu_def)
  have b: "map_of (radical_index stale_store) mu = Some [lin, ''gone'']"
    by (simp add: stale_store_def mu_def)
  have c: "List.map_filter (map_of (characters stale_store)) [lin, ''gone''] = [forest]"
    by (simp add: List.map_filter_def stale_store_def lin_def)
  show ?thesis
    using characters_by_radical_is_defensive[of stale_store "''absent''"]
      characters_by_radical_is_defensive[of stale_store mu "[lin, ''gone'']"] a b c
    by simp
qed

theorem search_is_substring_filter_witness:
  "search_characters example_lib forest_store [] = [forest] \<and>
   forest \<in> set (map snd (characters forest_store)) \<and>
   forest \<in> set (search_characters example_lib forest_store (c_character forest)) \<and>
   sublist (lower example_lib ''LIN'') (lower example_lib (c_pinyin forest)) \<and>
   forest \<in> set (search_characters example_lib forest_store ''LIN'') \<and>
   keys_match forest_store \<and>
   distinct (search_characters example_lib forest_store ''LIN'')"
proof -
  have a: "forest \<in> set (map snd (characters forest_store))"
    by (simp add: forest_store_def)
  have b: "sublist (lower example_lib ''LIN'') (lower example_lib (c_pinyin forest))"
    by (simp add: example_lib_def ascii_lower_def get_or_def forest_def)
  have c: "keys_match forest_store"
    by (simp add: keys_match_def forest_store_def forest_def)
  have d: "map snd (characters forest_store) = [forest]"
    by (simp add: forest_store_def)
  show ?thesis
    using search_is_substring_filter[of example_lib forest_store forest "''LIN''"] a b c d
    by simp
qed

theorem stats_counts_and_top_radicals_witness:
  "distinct (map fst (characters stale_store)) \<and>
   distinct (map fst (radicals stale_store)) \<and>
   card (dom (map_of (characters stale_store))) = 1 \<and>
   card (dom (map_of (radicals stale_store))) = 1 \<and>
   most_common_radicals (generate_stats stale_store) = [(mu, 2), (''shui'', 1)] \<and>
   (\<exists>s. (mu, s) \<in> set (radical_index stale_store) \<and> (2::nat) = length s)"
proof -
  have a: "distinct (map fst (characters stale_store))"
    "distinct (map fst (radicals stale_store))"
    by (simp_all add: stale_store_def)
  have b: "length (characters stale_store) = 1" "length (radicals stale_store) = 1"
    by (simp_all add: stale_store_def)
  have c: "most_common_radicals (generate_stats stale_store) = [(mu, 2), (''shui'', 1)]"
    by (simp add: generate_stats_def radical_count_def stale_store_def mu_def)
  show ?thesis
    using stats_counts_and_top_radicals[of stale_store] a b c by simp
qed

subsection \<open>Round trip and strictness of the codec\<close>

lemma prefix_short: "length p \<le> length a \<Longrightarrow> prefix p (a @ b) = prefix p a"
  by (auto simp: prefix_append)

lemma until_fence_append:
  "until_fence (y @ nl @ ''---'') = Some y \<Longrightarrow> until_fence (y @ nl @ ''---'' @ rest) = Some y"
proof (induction y)
  case Nil
  then show ?case by (simp add: nl_def)
next
  case (Cons c cs)
  have len: "length (nl @ ''---'') \<le> length ((c # cs) @ nl @ ''---'')" by simp
  have eq: "prefix (nl @ ''---'') (((c # cs) @ nl @ ''---'') @ rest) =
            prefix (nl @ ''---'') ((c # cs) @ nl @ ''---'')"
    by (rule prefix_short[OF len])
  from Cons.prems have np: "\<not> prefix (nl @ ''---'') ((c # cs) @ nl @ ''---'')"
    by (auto split: if_splits)
  with Cons.prems have "until_fence (cs @ nl @ ''---'') = Some cs"
    by (auto split: if_splits)
  from Cons.IH[OF this] np eq show ?case by simp
qed

lemma unlines_Cons: "unlines (l # ls) = l @ nl @ unlines ls"
  by (simp add: unlines_def)

lemma frontmatter_block_document:
  assumes "d \<noteq> []" "last d = CHR 0x0A"
    "until_fence (butlast d @ nl @ ''---'') = Some (butlast d)"
  shows "frontmatter_block (''---'' @ nl @ d @ unlines (''---'' # ls) @ rest) = Some (butlast d)"
proof -
  define y where "y = butlast d"
  from assms(1,2) have d: "d = y @ nl"
    unfolding y_def by (metis append_butlast_last_id nl_def)
  have doc: "''---'' @ nl @ d @ unlines (''---'' # ls) @ rest =
        (''---'' @ nl) @ (y @ nl @ ''---'' @ (nl @ unlines ls @ rest))"
    unfolding d by (simp add: unlines_Cons)
  have len: "length (''---'' @ nl) = 4" by (simp add: nl_def)
  have "frontmatter_block ((''---'' @ nl) @ (y @ nl @ ''---'' @ (nl @ unlines ls @ rest))) =
        until_fence (y @ nl @ ''---'' @ (nl @ unlines ls @ rest))"
    unfolding frontmatter_block_def using len by (simp del: append_assoc)
  also have "\<dots> = Some y"
    using assms(3) unfolding y_def[symmetric] by (rule until_fence_append)
  finally show ?thesis unfolding doc y_def .
qed

lemma RadicalType_of_value [simp]: "RadicalType_of (RadicalType_value t) = Inr t"
  by (cases t) (simp_all add: RadicalType_of_def)

lemma StrokeType_of_value [simp]: "StrokeType_of (StrokeType_value t) = Inr t"
  by (cases t) (simp_all add: StrokeType_of_def)

lemma traverse_stroke_values [simp]:
  "traverse StrokeType_of (map StrokeType_value so) = Inr so"
  by (induction so) simp_all

lemma parse_stroke_order_values:
  "parse_stroke_order (if so \<noteq> [] then Some (map StrokeType_value so) else None) = Inr so"
  by (simp add: parse_stroke_order_def get_or_def)

lemma list_if_any_saved: "list_if_any (if xs \<noteq> [] then Some xs else None) = xs"
  by (simp add: list_if_any_def get_or_def)

lemma radical_of_frontmatter:
  assumes "frontmatter_block content = Some y"
    "yaml_load_radical L y = Inr (radical_frontmatter_of r)"
  shows "parse_radical_file L content = Some r"
  using assms
  by (simp add: parse_radical_file_def parse_radical_text_def radical_frontmatter_of_def
      parse_stroke_order_values list_if_any_saved get_or_def)

lemma character_of_frontmatter:
  assumes "frontmatter_block content = Some y"
    "yaml_load_character L y = Inr (character_frontmatter_of c)"
  shows "parse_character_file L content = Some c"
  using assms
  by (simp add: parse_character_file_def parse_character_text_def character_frontmatter_of_def
      parse_stroke_order_values list_if_any_saved get_or_def)

lemma radical_content_shape:
  "radical_content L r =
     ''---'' @ nl @ yaml_dump_radical L (radical_frontmatter_of r) @
     unlines (''---'' # tl (radical_overview r) @
       [r_mnemonic r, [], ''## Common Characters'', join '', '' (r_common_characters r), [],
        ''## Stroke Order'', join arrow (map StrokeType_value (r_stroke_order r))]) @ []"
  by (simp add: radical_content_def radical_overview_def)

lemma character_content_shape:
  "character_content L c = Inr txt \<Longrightarrow>
   \<exists>ls rest. txt =
     ''---'' @ nl @ yaml_dump_character L (character_frontmatter_of c) @
     unlines (''---'' # ls) @ rest"
  unfolding character_content_def character_heading_def
  by (auto split: sum.splits)

lemma save_radical_plain_file:
  "map_of (files (save_radical L r st)) (root_dir, RadicalsDir, r_character r) =
     Some (radical_content L r)"
  by (simp add: save_radical_def write_text_def Let_def update_conv')

lemma save_character_plain_file:
  "map_of (files (snd (save_character L c st))) (root_dir, CharactersDir, c_character c) =
     (case character_content L c of
        Inl e \<Rightarrow> map_of (files st) (root_dir, CharactersDir, c_character c)
      | Inr doc \<Rightarrow> Some doc)"
  by (simp add: save_character_def write_text_def Let_def update_conv' split: sum.splits)

text \<open>
  Claim C1. Decoding the plain document that the save operation writes gives the value
  back, for a radical and for a character, whatever their fields hold (populated or
  empty lists, empty strings, zeros), provided PyYAML returns the frontmatter it dumped
  (\<open>yaml_roundtrip\<close>) and, for a character, every example word has the three keys the
  body prints. The plain file of the store holds that document.
\<close>

theorem plain_encoding_round_trip:
  "(yaml_roundtrip (yaml_dump_radical L) (yaml_load_radical L) (radical_frontmatter_of r) \<longrightarrow>
      parse_radical_file L (radical_content L r) = Some r) \<and>
   (yaml_roundtrip (yaml_dump_character L) (yaml_load_character L) (character_frontmatter_of c) \<and>
    words_complete c \<longrightarrow>
      (\<exists>doc. character_content L c = Inr doc \<and> parse_character_file L doc = Some c)) \<and>
   map_of (files (save_radical L r st)) (root_dir, RadicalsDir, r_character r) =
     Some (radical_content L r) \<and>
   map_of (files (snd (save_character L c st))) (root_dir, CharactersDir, c_character c) =
     (case character_content L c of
        Inl e \<Rightarrow> map_of (files st) (root_dir, CharactersDir, c_character c)
      | Inr doc \<Rightarrow> Some doc)"
proof (intro conjI impI)
  assume y: "yaml_roundtrip (yaml_dump_radical L) (yaml_load_radical L) (radical_frontmatter_of r)"
  let ?d = "yaml_dump_radical L (radical_frontmatter_of r)"
  from y have d: "?d \<noteq> []" "last ?d = CHR 0x0A"
    "until_fence (butlast ?d @ nl @ ''---'') = Some (butlast ?d)"
    and l: "yaml_load_radical L (butlast ?d) = Inr (radical_frontmatter_of r)"
    by (simp_all add: yaml_roundtrip_def Let_def)
  have "frontmatter_block (radical_content L r) = Some (butlast ?d)"
    by (subst radical_content_shape) (rule frontmatter_block_document[OF d])
  then show "parse_radical_file L (radical_content L r) = Some r"
    using l by (rule radical_of_frontmatter)
next
  assume a: "yaml_roundtrip (yaml_dump_character L) (yaml_load_character L)
      (character_frontmatter_of c) \<and> words_complete c"
  let ?d = "yaml_dump_character L (character_frontmatter_of c)"
  from a have d: "?d \<noteq> []" "last ?d = CHR 0x0A"
    "until_fence (butlast ?d @ nl @ ''---'') = Some (butlast ?d)"
    and l: "yaml_load_character L (butlast ?d) = Inr (character_frontmatter_of c)"
    by (simp_all add: yaml_roundtrip_def Let_def)
  from a obtain ws where "example_word_lines c = Inr ws"
    using example_word_lines_ok by blast
  then obtain doc where ct: "character_content L c = Inr doc"
    by (simp add: character_content_def)
  from character_content_shape[OF ct] obtain ls rest where
    "doc = ''---'' @ nl @ ?d @ unlines (''---'' # ls) @ rest" by blast
  then have "frontmatter_block doc = Some (butlast ?d)"
    using frontmatter_block_document[OF d] by simp
  then have "parse_character_file L doc = Some c"
    using l by (rule character_of_frontmatter)
  with ct show "\<exists>doc. character_content L c = Inr doc \<and> parse_character_file L doc = Some c"
    by blast
next
  show "map_of (files (save_radical L r st)) (root_dir, RadicalsDir, r_character r) =
     Some (radical_content L r)" by (rule save_radical_plain_file)
  show "map_of (files (snd (save_character L c st))) (root_dir, CharactersDir, c_character c) =
     (case character_content L c of
        Inl e \<Rightarrow> map_of (files st) (root_dir, CharactersDir, c_character c)
      | Inr doc \<Rightarrow> Some doc)" by (rule save_character_plain_file)
qed

theorem plain_encoding_round_trip_witness:
  "yaml_roundtrip (yaml_dump_radical example_lib) (yaml_load_radical example_lib)
     (radical_frontmatter_of wood) \<and>
   parse_radical_file example_lib (radical_content example_lib wood) = Some wood \<and>
   yaml_roundtrip (yaml_dump_character example_lib) (yaml_load_character example_lib)
     (character_frontmatter_of forest) \<and>
   words_complete forest \<and>
   (\<exists>doc. character_content example_lib forest = Inr doc \<and>
      parse_character_file example_lib doc = Some forest)"
proof -
  have a: "yaml_roundtrip (yaml_dump_radical example_lib) (yaml_load_radical example_lib)
     (radical_frontmatter_of wood)"
    by (simp add: yaml_roundtrip_def example_lib_def radical_docs_def stub_dump_def
        stub_load_def nl_def)
  have b: "yaml_roundtrip (yaml_dump_character example_lib) (yaml_load_character example_lib)
     (character_frontmatter_of forest)"
    by (simp add: yaml_roundtrip_def example_lib_def character_docs_def stub_dump_def
        stub_load_def nl_def)
  have c: "words_complete forest"
    by (simp add: words_complete_def forest_def)
  show ?thesis
    using plain_encoding_round_trip[of example_lib wood forest] a b c by simp
qed

lemma RadicalType_of_unknown_literal:
  "s \<notin> set role_literals \<Longrightarrow> RadicalType_of s = Inl ValueError"
  by (simp add: role_literals_def RadicalType_of_def)

lemma StrokeType_of_unknown_literal:
  "s \<notin> set stroke_literals \<Longrightarrow> StrokeType_of s = Inl ValueError"
  by (simp add: stroke_literals_def StrokeType_of_def)

lemma traverse_fails: "x \<in> set xs \<Longrightarrow> isl (f x) \<Longrightarrow> isl (traverse f xs)"
  by (induction xs) (auto split: sum.splits)

lemma parse_stroke_order_fails:
  assumes "\<exists>s\<in>set ss. s \<notin> set stroke_literals"
  shows "isl (parse_stroke_order (Some ss))"
proof -
  from assms obtain s where s: "s \<in> set ss" "s \<notin> set stroke_literals" by blast
  then have "isl (StrokeType_of s)" by (simp add: StrokeType_of_unknown_literal)
  with s(1) have "isl (traverse StrokeType_of ss)" by (rule traverse_fails)
  moreover from s(1) have "ss \<noteq> []" by auto
  ultimately show ?thesis by (simp add: parse_stroke_order_def get_or_def)
qed

text \<open>
  Claim C7, as stated, fails: a record whose role literal is outside the enumeration is
  not decoded with the unknown role, it is not decoded at all.
\<close>

theorem unknown_role_literal_counterexample:
  "frontmatter_block mystery_doc = Some ''type: mystery'' \<and>
   yaml_load_radical example_lib ''type: mystery'' = Inr mystery \<and>
   rf_type mystery = Some ''mystery'' \<and>
   ''mystery'' \<notin> set role_literals \<and>
   parse_radical_file example_lib mystery_doc = None"
  by (simp add: parse_radical_file_def parse_radical_text_def frontmatter_block_def
      mystery_doc_def fenced_def nl_def example_lib_def radical_docs_def stub_load_def
      mystery_def get_or_def RadicalType_of_def role_literals_def)

text \<open>
  Claim C7, amended. A role literal or a stroke-shape literal outside the enumeration
  makes the decoder return no value (the ValueError is caught), it never falls back to a
  sentinel. A role that is absent is decoded as the unknown role, and a stroke order that
  is absent as the empty sequence, without failing.
\<close>

theorem enumeration_literals_are_strict:
  "(frontmatter_block content = Some y \<and> yaml_load_radical L y = Inr fm \<and>
    rf_type fm = Some s \<and> s \<notin> set role_literals \<longrightarrow>
      parse_radical_file L content = None) \<and>
   (frontmatter_block content = Some y \<and> yaml_load_radical L y = Inr fm \<and>
    rf_stroke_order fm = Some ss \<and> (\<exists>s\<in>set ss. s \<notin> set stroke_literals) \<longrightarrow>
      parse_radical_file L content = None) \<and>
   (frontmatter_block content = Some y \<and> yaml_load_character L y = Inr cfm \<and>
    cf_stroke_order cfm = Some ss \<and> (\<exists>s\<in>set ss. s \<notin> set stroke_literals) \<longrightarrow>
      parse_character_file L content = None) \<and>
   (frontmatter_block content = Some y \<and> yaml_load_radical L y = Inr fm \<and>
    rf_type fm = None \<and> rf_stroke_order fm = None \<longrightarrow>
      (\<exists>r. parse_radical_file L content = Some r \<and> r_type r = UNKNOWN \<and>
           r_stroke_order r = [])) \<and>
   (frontmatter_block content = Some y \<and> yaml_load_character L y = Inr cfm \<and>
    cf_stroke_order cfm = None \<longrightarrow>
      (\<exists>c. parse_character_file L content = Some c \<and> c_stroke_order c = []))"
proof (intro conjI impI)
  assume "frontmatter_block content = Some y \<and> yaml_load_radical L y = Inr fm \<and>
    rf_type fm = Some s \<and> s \<notin> set role_literals"
  then show "parse_radical_file L content = None"
    by (simp add: parse_radical_file_def parse_radical_text_def get_or_def
        RadicalType_of_unknown_literal)
next
  assume a: "frontmatter_block content = Some y \<and> yaml_load_radical L y = Inr fm \<and>
    rf_stroke_order fm = Some ss \<and> (\<exists>s\<in>set ss. s \<notin> set stroke_literals)"
  then have "isl (parse_stroke_order (rf_stroke_order fm))"
    using parse_stroke_order_fails[of ss] by simp
  with a show "parse_radical_file L content = None"
    by (auto simp: parse_radical_file_def parse_radical_text_def split: sum.splits)
next
  assume a: "frontmatter_block content = Some y \<and> yaml_load_character L y = Inr cfm \<and>
    cf_stroke_order cfm = Some ss \<and> (\<exists>s\<in>set ss. s \<notin> set stroke_literals)"
  then have "isl (parse_stroke_order (cf_stroke_order cfm))"
    using parse_stroke_order_fails[of ss] by simp
  with a show "parse_character_file L content = None"
    by (auto simp: parse_character_file_def parse_character_text_def split: sum.splits)
next
  assume "frontmatter_block content = Some y \<and> yaml_load_radical L y = Inr fm \<and>
    rf_type fm = None \<and> rf_stroke_order fm = None"
  then show "\<exists>r. parse_radical_file L content = Some r \<and> r_type r = UNKNOWN \<and>
           r_stroke_order r = []"
    by (simp add: parse_radical_file_def parse_radical_text_def get_or_def RadicalType_of_def
        parse_stroke_order_def)
next
  assume "frontmatter_block content = Some y \<and> yaml_load_character L y = Inr cfm \<and>
    cf_stroke_order cfm = None"
  then show "\<exists>c. parse_character_file L content = Some c \<and> c_stroke_order c = []"
    by (simp add: parse_character_file_def parse_character_text_def get_or_def
        parse_stroke_order_def)
qed

theorem enumeration_literals_are_strict_witness:
  "frontmatter_block mystery_doc = Some ''type: mystery'' \<and>
   yaml_load_radical example_lib ''type: mystery'' = Inr mystery \<and>
   rf_type mystery = Some ''mystery'' \<and> ''mystery'' \<notin> set role_literals \<and>
   parse_radical_file example_lib mystery_doc = None \<and>
   frontmatter_block (fenced ''stroke_order: [zig]'') = Some ''stroke_order: [zig]'' \<and>
   yaml_load_radical example_lib ''stroke_order: [zig]'' =
     Inr (bare\<lparr>rf_stroke_order := Some [''zig'']\<rparr>) \<and>
   yaml_load_character example_lib ''stroke_order: [zig]'' = Inr zig \<and>
   cf_stroke_order zig = Some [''zig''] \<and> ''zig'' \<notin> set stroke_literals \<and>
   parse_radical_file example_lib (fenced ''stroke_order: [zig]'') = None \<and>
   parse_character_file example_lib (fenced ''stroke_order: [zig]'') = None \<and>
   frontmatter_block (fenced ''character: x'') = Some ''character: x'' \<and>
   yaml_load_radical example_lib ''character: x'' = Inr bare \<and>
   rf_type bare = None \<and> rf_stroke_order bare = None \<and>
   (\<exists>r. parse_radical_file example_lib (fenced ''character: x'') = Some r \<and>
        r_type r = UNKNOWN \<and> r_stroke_order r = []) \<and>
   frontmatter_block forest_doc = Some ''character: lin'' \<and>
   yaml_load_character example_lib ''character: lin'' = Inr (character_frontmatter_of forest) \<and>
   cf_stroke_order (character_frontmatter_of forest) = None \<and>
   (\<exists>c. parse_character_file example_lib forest_doc = Some c \<and> c_stroke_order c = [])"
proof -
  have f: "frontmatter_block mystery_doc = Some ''type: mystery''"
    "frontmatter_block (fenced ''stroke_order: [zig]'') = Some ''stroke_order: [zig]''"
    "frontmatter_block (fenced ''character: x'') = Some ''character: x''"
    "frontmatter_block forest_doc = Some ''character: lin''"
    by (simp_all add: frontmatter_block_def mystery_doc_def forest_doc_def fenced_def nl_def)
  have l: "yaml_load_radical example_lib ''type: mystery'' = Inr mystery"
    "yaml_load_radical example_lib ''stroke_order: [zig]'' =
       Inr (bare\<lparr>rf_stroke_order := Some [''zig'']\<rparr>)"
    "yaml_load_radical example_lib ''character: x'' = Inr bare"
    "yaml_load_character example_lib ''stroke_order: [zig]'' = Inr zig"
    "yaml_load_character example_lib ''character: lin'' = Inr (character_frontmatter_of forest)"
    by (simp_all add: example_lib_def radical_docs_def character_docs_def stub_load_def)
  have v: "rf_type mystery = Some ''mystery''" "''mystery'' \<notin> set role_literals"
    "cf_stroke_order zig = Some [''zig'']" "''zig'' \<notin> set stroke_literals"
    "rf_type bare = None" "rf_stroke_order bare = None"
    "cf_stroke_order (character_frontmatter_of forest) = None"
    "rf_stroke_order (bare\<lparr>rf_stroke_order := Some [''zig'']\<rparr>) = Some [''zig'']"
    by (simp_all add: mystery_def role_literals_def zig_def stroke_literals_def bare_def
        character_frontmatter_of_def forest_def)
  show ?thesis
    using enumeration_literals_are_strict[where L = example_lib and content = mystery_doc
        and y = "''type: mystery''" and fm = mystery and s = "''mystery''"]
      enumeration_literals_are_strict[where L = example_lib
        and content = "fenced ''stroke_order: [zig]''" and y = "''stroke_order: [zig]''"
        and fm = "bare\<lparr>rf_stroke_order := Some [''zig'']\<rparr>" and cfm = zig
        and ss = "[''zig'']"]
      enumeration_literals_are_strict[where L = example_lib
        and content = "fenced ''character: x''" and y = "''character: x''" and fm = bare]
      enumeration_literals_are_strict[where L = example_lib and content = forest_doc
        and y = "''character: lin''" and cfm = "character_frontmatter_of forest"]
      f l v
    by simp
qed

subsection \<open>Bulk import\<close>

lemma character_of_row_no_words: "character_of_row L row = Inr c \<Longrightarrow> c_example_words c = []"
  by (auto simp: character_of_row_def Let_def split: sum.splits)

lemma add_character_returns:
  "words_complete c \<Longrightarrow> \<exists>added. fst (add_character L c st) = Inr added"
  using add_character_ok[of st c L]
  by (cases "has_key (characters st) (c_character c)") (auto simp: add_character_def)

lemma import_row_builds:
  assumes "row_builds L row" shows "fst (import_row L st row) = Inr ()"
proof (cases "is_radical L row")
  case True
  with assms obtain radical where "radical_of_row L row = Inr radical"
    by (cases "radical_of_row L row") (auto simp: row_builds_def)
  with True show ?thesis by (simp add: import_row_def add_radical_def)
next
  case False
  with assms obtain c where c: "character_of_row L row = Inr c"
    by (cases "character_of_row L row") (auto simp: row_builds_def)
  then have "words_complete c"
    by (simp add: words_complete_def character_of_row_no_words)
  then obtain added where "fst (add_character L c st) = Inr added"
    using add_character_returns by blast
  with False c show ?thesis
    by (cases "add_character L c st") (auto simp: import_row_def)
qed

lemma import_row_fails:
  assumes "\<not> row_builds L row" shows "\<exists>e. import_row L st row = (Inl e, st)"
proof (cases "is_radical L row")
  case True
  with assms show ?thesis
    by (cases "radical_of_row L row") (auto simp: row_builds_def import_row_def)
next
  case False
  with assms show ?thesis
    by (cases "character_of_row L row") (auto simp: row_builds_def import_row_def)
qed

text \<open>The store after the rows, each of which builds.\<close>

lemma import_rows_all_build:
  assumes "\<forall>row\<in>set rows. row_builds L row"
  shows "import_rows L rows n st =
           (Inr (n + length rows), foldl (\<lambda>s row. snd (import_row L s row)) st rows)"
  using assms
proof (induction rows arbitrary: n st)
  case Nil then show ?case by simp
next
  case (Cons row rows)
  from Cons.prems have "fst (import_row L st row) = Inr ()" by (simp add: import_row_builds)
  then obtain st' where s: "import_row L st row = (Inr (), st')"
    by (cases "import_row L st row") auto
  from Cons.prems have "\<forall>row\<in>set rows. row_builds L row" by simp
  from Cons.IH[OF this, of "n + 1" st'] s show ?case by simp
qed

lemma import_rows_stops:
  assumes "\<forall>r\<in>set pre. row_builds L r" "\<not> row_builds L row"
  shows "\<exists>e. import_rows L (pre @ row # post) n st =
           (Inl e, foldl (\<lambda>s row. snd (import_row L s row)) st pre)"
  using assms(1)
proof (induction pre arbitrary: n st)
  case Nil
  from import_row_fails[OF assms(2), of st] show ?case by auto
next
  case (Cons a pre)
  from Cons.prems have "fst (import_row L st a) = Inr ()" by (simp add: import_row_builds)
  then obtain st' where s: "import_row L st a = (Inr (), st')"
    by (cases "import_row L st a") auto
  from Cons.prems have "\<forall>r\<in>set pre. row_builds L r" by simp
  from Cons.IH[OF this, of "n + 1" st'] s show ?case by simp
qed

lemma import_rows_any_failure:
  assumes "row \<in> set rows" "\<not> row_builds L row"
  shows "\<exists>e. fst (import_rows L rows n st) = Inl e"
  using assms(1)
proof (induction rows arbitrary: n st)
  case Nil then show ?case by simp
next
  case (Cons a rows)
  show ?case
  proof (cases "row_builds L a")
    case True
    then have "fst (import_row L st a) = Inr ()" by (simp add: import_row_builds)
    then obtain st' where s: "import_row L st a = (Inr (), st')"
      by (cases "import_row L st a") auto
    from True Cons.prems assms(2) have "row \<in> set rows" by auto
    from Cons.IH[OF this, of "n + 1" st'] s show ?thesis by simp
  next
    case False
    from import_row_fails[OF False, of st] show ?thesis by auto
  qed
qed

lemma import_all_build:
  "\<forall>row\<in>set rows. row_builds L row \<Longrightarrow>
   import_from_csv L rows st =
     (length rows, foldl (\<lambda>s row. snd (import_row L s row)) st rows)"
  by (simp add: import_from_csv_def import_rows_all_build)

lemma import_any_failure:
  assumes "row \<in> set rows" "\<not> row_builds L row"
  shows "fst (import_from_csv L rows st) = 0"
proof -
  from import_rows_any_failure[OF assms, of 0 st]
  obtain e where "fst (import_rows L rows 0 st) = Inl e" by blast
  then show ?thesis
    by (cases "import_rows L rows 0 st") (auto simp: import_from_csv_def)
qed

text \<open>
  Claim C8. When no row raises, \<open>import_from_csv\<close> returns the number of rows, whether
  or not the keys of the rows were in the store already: a row whose key exists is
  counted, and the store stays as it was for that row.
\<close>

theorem import_counts_processed_rows:
  "((\<forall>row\<in>set rows. row_builds L row) \<longrightarrow> fst (import_from_csv L rows st) = length rows) \<and>
   (\<not> is_radical L row \<and> character_of_row L row = Inr c \<and>
    has_key (characters st) (c_character c) \<longrightarrow> import_from_csv L [row] st = (1, st)) \<and>
   (is_radical L row \<and> radical_of_row L row = Inr r \<and>
    has_key (radicals st) (r_character r) \<longrightarrow> import_from_csv L [row] st = (1, st))"
proof (intro conjI impI)
  assume "\<forall>row\<in>set rows. row_builds L row"
  then show "fst (import_from_csv L rows st) = length rows" by (simp add: import_all_build)
next
  assume "\<not> is_radical L row \<and> character_of_row L row = Inr c \<and>
    has_key (characters st) (c_character c)"
  then show "import_from_csv L [row] st = (1, st)"
    by (simp add: import_from_csv_def import_row_def add_character_def)
next
  assume "is_radical L row \<and> radical_of_row L row = Inr r \<and>
    has_key (radicals st) (r_character r)"
  then show "import_from_csv L [row] st = (1, st)"
    by (simp add: import_from_csv_def import_row_def add_radical_def)
qed

lemma character_of_row_hsk_guard:
  assumes "\<not> isdigit L h"
  shows "character_of_row L (row(''hsk_level'' \<mapsto> h)) = character_of_row L (row(''hsk_level'' := None))"
  using assms
  by (simp add: character_of_row_def row_digits_def row_stroke_order_def row_list_def
      get_or_def Let_def cong: sum.case_cong)

lemma character_of_row_freq_guard:
  assumes "\<not> isdigit L h"
  shows "character_of_row L (row(''frequency_rank'' \<mapsto> h)) =
         character_of_row L (row(''frequency_rank'' := None))"
  using assms
  by (simp add: character_of_row_def row_digits_def row_stroke_order_def row_list_def
      get_or_def Let_def cong: sum.case_cong)

lemma character_of_row_hsk_zero:
  assumes "\<not> isdigit L h" "character_of_row L (row(''hsk_level'' \<mapsto> h)) = Inr c"
  shows "c_hsk_level c = 0"
  using assms
  by (auto simp: character_of_row_def row_digits_def get_or_def Let_def split: sum.splits)

lemma character_of_row_freq_zero:
  assumes "\<not> isdigit L h" "character_of_row L (row(''frequency_rank'' \<mapsto> h)) = Inr c"
  shows "c_frequency_rank c = 0"
  using assms
  by (auto simp: character_of_row_def row_digits_def get_or_def Let_def split: sum.splits)

lemma bad_strokes_row:
  assumes "row ''strokes'' = Some s" "isl (int_of_str L s)"
  shows "\<not> row_builds L row"
  using assms
  by (auto simp: row_builds_def character_of_row_def radical_of_row_def int_field_def Let_def
      split: sum.splits)

lemma bad_tone_row:
  assumes "\<not> is_radical L row" "row ''tone'' = Some s" "isl (int_of_str L s)"
  shows "\<not> row_builds L row"
  using assms
  by (auto simp: row_builds_def character_of_row_def int_field_def Let_def split: sum.splits)

lemma bad_type_row:
  assumes "is_radical L row" "row ''type'' = Some s" "s \<notin> set role_literals"
  shows "\<not> row_builds L row"
  using assms
  by (simp add: row_builds_def radical_of_row_def get_or_def RadicalType_of_unknown_literal)

text \<open>
  The guard of the two optional numeric columns, \<open>if v and v.isdigit(): int(v)\<close>, lets
  \<open>int\<close> run on every digit string: a non-empty cell that \<open>isdigit\<close> accepts and
  \<open>int\<close> rejects raises, and the row does not build.
\<close>

lemma row_digits_raises:
  assumes "row key = Some h" "h \<noteq> []" "isdigit L h" "isl (int_of_str L h)"
  shows "isl (row_digits L row key)"
  using assms by (simp add: row_digits_def get_or_def)

lemma digit_string_rejected_by_int:
  assumes "\<not> is_radical L row" "key = ''hsk_level'' \<or> key = ''frequency_rank''"
    "row key = Some h" "h \<noteq> []" "isdigit L h" "isl (int_of_str L h)"
  shows "\<not> row_builds L row"
proof -
  from assms(3-6) have r: "isl (row_digits L row key)" by (rule row_digits_raises)
  have "isl (character_of_row L row)"
    using assms(2) r
    by (auto simp: character_of_row_def Let_def split: sum.splits)
  with assms(1) show ?thesis by (simp add: row_builds_def)
qed

lemma has_key_write_text:
  "has_key (files (write_text p t st)) q \<longleftrightarrow> q = p \<or> has_key (files st) q"
  by (simp add: write_text_def has_key_update)

lemma save_radical_files:
  "has_key (files (save_radical L r st)) q \<longleftrightarrow>
     q \<in> {(root_dir, RadicalsDir, r_character r), (vscode_dir, RadicalsDir, r_character r),
          (obsidian_dir, RadicalsDir, r_character r)} \<or> has_key (files st) q"
  by (auto simp: save_radical_def Let_def has_key_write_text)

lemma save_character_keeps_files:
  "has_key (files st) q \<Longrightarrow> has_key (files (snd (save_character L c st))) q"
  by (auto simp: save_character_def Let_def has_key_write_text split: sum.splits)

lemma save_character_writes:
  assumes "words_complete c"
  shows "has_key (files (snd (save_character L c st))) (root_dir, CharactersDir, c_character c)"
proof -
  from example_word_lines_ok[OF assms] obtain ws where "example_word_lines c = Inr ws" by blast
  then obtain doc where "character_content L c = Inr doc" by (simp add: character_content_def)
  then show ?thesis
    using save_character_plain_file[of L c st] by (simp add: has_key_def)
qed

lemma add_character_snd:
  "snd (add_character L c st) =
     (if has_key (characters st) (c_character c) then st
      else snd (save_character L c (update_radical_index c
             (st\<lparr>characters := AList.update (c_character c) c (characters st)\<rparr>))))"
  by (auto simp: add_character_def Let_def split: prod.splits sum.splits)

lemma add_radical_snd:
  "snd (add_radical L r st) =
     (if has_key (radicals st) (r_character r) then st
      else save_radical L r (st\<lparr>radicals := AList.update (r_character r) r (radicals st)\<rparr>))"
  by (simp add: add_radical_def)

lemma import_row_snd:
  "snd (import_row L st row) =
     (if is_radical L row
      then (case radical_of_row L row of Inl e \<Rightarrow> st | Inr r \<Rightarrow> snd (add_radical L r st))
      else (case character_of_row L row of Inl e \<Rightarrow> st | Inr c \<Rightarrow> snd (add_character L c st)))"
  by (auto simp: import_row_def split: sum.splits prod.splits)

text \<open>Keys and files are only ever added by a row.\<close>

lemma import_row_keeps:
  "has_key (characters st) k \<Longrightarrow> has_key (characters (snd (import_row L st row))) k"
  "has_key (radicals st) k \<Longrightarrow> has_key (radicals (snd (import_row L st row))) k"
  "has_key (files st) q \<Longrightarrow> has_key (files (snd (import_row L st row))) q"
  by (auto simp: import_row_snd add_character_snd add_radical_snd save_character_mem
      save_radical_files save_character_keeps_files has_key_update split: sum.splits)

lemma import_row_adds:
  "\<not> is_radical L row \<Longrightarrow> character_of_row L row = Inr c \<Longrightarrow>
     has_key (characters (snd (import_row L st row))) (c_character c)"
  "is_radical L row \<Longrightarrow> radical_of_row L row = Inr r \<Longrightarrow>
     has_key (radicals (snd (import_row L st row))) (r_character r)"
  by (auto simp: import_row_snd add_character_snd add_radical_snd save_character_mem
      has_key_update)

lemma on_disk_refl: "on_disk st st"
  by (simp add: on_disk_def)

lemma on_disk_add_radical: "on_disk st0 st \<Longrightarrow> on_disk st0 (snd (add_radical L r st))"
  unfolding on_disk_def add_radical_snd
  by (auto simp: save_radical_files has_key_update)

lemma on_disk_add_character:
  assumes "on_disk st0 st" "words_complete c"
  shows "on_disk st0 (snd (add_character L c st))"
proof (cases "has_key (characters st) (c_character c)")
  case True
  with assms show ?thesis by (simp add: add_character_snd)
next
  case False
  let ?st2 = "update_radical_index c
      (st\<lparr>characters := AList.update (c_character c) c (characters st)\<rparr>)"
  let ?st3 = "snd (save_character L c ?st2)"
  have w: "has_key (files ?st3) (root_dir, CharactersDir, c_character c)"
    using assms(2) by (rule save_character_writes)
  have k: "\<And>q. has_key (files st) q \<Longrightarrow> has_key (files ?st3) q"
    using save_character_keeps_files[of ?st2 _ L c] by simp
  have c: "characters ?st3 = AList.update (c_character c) c (characters st)"
    and r: "radicals ?st3 = radicals st"
    by (simp_all add: save_character_mem)
  from assms(1) w k show ?thesis
    unfolding on_disk_def add_character_snd using False
    by (auto simp: c r has_key_update)
qed

lemma on_disk_import_row: "on_disk st0 st \<Longrightarrow> on_disk st0 (snd (import_row L st row))"
  using character_of_row_no_words[of L row]
  by (auto simp: import_row_snd on_disk_add_radical on_disk_add_character words_complete_def
      split: sum.splits)

lemma foldl_import_keeps:
  "has_key (characters st) k \<Longrightarrow>
     has_key (characters (foldl (\<lambda>s row. snd (import_row L s row)) st rows)) k"
  "has_key (radicals st) k \<Longrightarrow>
     has_key (radicals (foldl (\<lambda>s row. snd (import_row L s row)) st rows)) k"
  by (induction rows arbitrary: st) (simp_all add: import_row_keeps)

lemma foldl_import_on_disk:
  "on_disk st0 st \<Longrightarrow> on_disk st0 (foldl (\<lambda>s row. snd (import_row L s row)) st rows)"
  by (induction rows arbitrary: st) (simp_all add: on_disk_import_row)

lemma foldl_import_adds_character:
  assumes "row \<in> set rows" "\<not> is_radical L row" "character_of_row L row = Inr c"
  shows "has_key (characters (foldl (\<lambda>s row. snd (import_row L s row)) st rows)) (c_character c)"
  using assms(1)
proof (induction rows arbitrary: st)
  case Nil then show ?case by simp
next
  case (Cons a rows)
  show ?case
  proof (cases "a = row")
    case True
    then show ?thesis
      using foldl_import_keeps(1)[OF import_row_adds(1)[OF assms(2,3)]] by simp
  next
    case False
    with Cons.prems have "row \<in> set rows" by simp
    from Cons.IH[OF this] show ?thesis by simp
  qed
qed

lemma foldl_import_adds_radical:
  assumes "row \<in> set rows" "is_radical L row" "radical_of_row L row = Inr r"
  shows "has_key (radicals (foldl (\<lambda>s row. snd (import_row L s row)) st rows)) (r_character r)"
  using assms(1)
proof (induction rows arbitrary: st)
  case Nil then show ?case by simp
next
  case (Cons a rows)
  show ?case
  proof (cases "a = row")
    case True
    then show ?thesis
      using foldl_import_keeps(2)[OF import_row_adds(2)[OF assms(2,3)]] by simp
  next
    case False
    with Cons.prems have "row \<in> set rows" by simp
    from Cons.IH[OF this] show ?thesis by simp
  qed
qed

lemma import_stops:
  assumes "\<forall>r\<in>set pre. row_builds L r" "\<not> row_builds L row"
  shows "import_from_csv L (pre @ row # post) st =
           (0, foldl (\<lambda>s row. snd (import_row L s row)) st pre)"
proof -
  from import_rows_stops[OF assms, of post 0 st] obtain e where
    "import_rows L (pre @ row # post) 0 st =
       (Inl e, foldl (\<lambda>s row. snd (import_row L s row)) st pre)" by blast
  then show ?thesis by (simp add: import_from_csv_def)
qed

text \<open>
  Claim C10. When a row raises (for example on a malformed strokes value or an
  unrecognized type literal) after rows that all build, \<open>import_from_csv\<close> returns 0, and
  the store is the one that the successful import of the earlier rows alone leaves, which
  would have returned their number: every character and radical of an earlier row is a key
  of the store, and has its plain file unless it was a key before the import.
\<close>

theorem failed_import_keeps_earlier_rows:
  "((\<forall>r\<in>set pre. row_builds L r) \<and> \<not> row_builds L row \<longrightarrow>
      import_from_csv L (pre @ row # post) st = (0, snd (import_from_csv L pre st)) \<and>
      fst (import_from_csv L pre st) = length pre \<and>
      (\<forall>r\<in>set pre. \<forall>c. \<not> is_radical L r \<and> character_of_row L r = Inr c \<longrightarrow>
         has_key (characters (snd (import_from_csv L (pre @ row # post) st))) (c_character c) \<and>
         (has_key (files (snd (import_from_csv L (pre @ row # post) st)))
            (root_dir, CharactersDir, c_character c) \<or>
          has_key (characters st) (c_character c))) \<and>
      (\<forall>r\<in>set pre. \<forall>rad. is_radical L r \<and> radical_of_row L r = Inr rad \<longrightarrow>
         has_key (radicals (snd (import_from_csv L (pre @ row # post) st))) (r_character rad) \<and>
         (has_key (files (snd (import_from_csv L (pre @ row # post) st)))
            (root_dir, RadicalsDir, r_character rad) \<or>
          has_key (radicals st) (r_character rad)))) \<and>
   (row ''strokes'' = Some s \<and> isl (int_of_str L s) \<longrightarrow> \<not> row_builds L row) \<and>
   (is_radical L row \<and> row ''type'' = Some s \<and> s \<notin> set role_literals \<longrightarrow>
      \<not> row_builds L row)"
proof (intro conjI impI)
  assume a: "(\<forall>r\<in>set pre. row_builds L r) \<and> \<not> row_builds L row"
  let ?st' = "foldl (\<lambda>s row. snd (import_row L s row)) st pre"
  from a have all: "import_from_csv L pre st = (length pre, ?st')"
    by (simp add: import_all_build)
  from a have stop: "import_from_csv L (pre @ row # post) st = (0, ?st')"
    by (simp add: import_stops)
  have disk: "on_disk st ?st'"
    by (rule foldl_import_on_disk) (rule on_disk_refl)
  show "import_from_csv L (pre @ row # post) st = (0, snd (import_from_csv L pre st))"
    by (simp add: all stop)
  show "fst (import_from_csv L pre st) = length pre"
    by (simp add: all)
  show "\<forall>r\<in>set pre. \<forall>c. \<not> is_radical L r \<and> character_of_row L r = Inr c \<longrightarrow>
         has_key (characters (snd (import_from_csv L (pre @ row # post) st))) (c_character c) \<and>
         (has_key (files (snd (import_from_csv L (pre @ row # post) st)))
            (root_dir, CharactersDir, c_character c) \<or>
          has_key (characters st) (c_character c))"
  proof (intro ballI allI impI)
    fix r c assume r: "r \<in> set pre" and "\<not> is_radical L r \<and> character_of_row L r = Inr c"
    then have k: "has_key (characters ?st') (c_character c)"
      using foldl_import_adds_character by blast
    with disk have "has_key (files ?st') (root_dir, CharactersDir, c_character c) \<or>
        has_key (characters st) (c_character c)"
      by (simp add: on_disk_def)
    with k show "has_key (characters (snd (import_from_csv L (pre @ row # post) st)))
          (c_character c) \<and>
         (has_key (files (snd (import_from_csv L (pre @ row # post) st)))
            (root_dir, CharactersDir, c_character c) \<or>
          has_key (characters st) (c_character c))"
      by (simp add: stop)
  qed
  show "\<forall>r\<in>set pre. \<forall>rad. is_radical L r \<and> radical_of_row L r = Inr rad \<longrightarrow>
         has_key (radicals (snd (import_from_csv L (pre @ row # post) st))) (r_character rad) \<and>
         (has_key (files (snd (import_from_csv L (pre @ row # post) st)))
            (root_dir, RadicalsDir, r_character rad) \<or>
          has_key (radicals st) (r_character rad))"
  proof (intro ballI allI impI)
    fix r rad assume r: "r \<in> set pre" and "is_radical L r \<and> radical_of_row L r = Inr rad"
    then have k: "has_key (radicals ?st') (r_character rad)"
      using foldl_import_adds_radical by blast
    with disk have "has_key (files ?st') (root_dir, RadicalsDir, r_character rad) \<or>
        has_key (radicals st) (r_character rad)"
      by (simp add: on_disk_def)
    with k show "has_key (radicals (snd (import_from_csv L (pre @ row # post) st)))
          (r_character rad) \<and>
         (has_key (files (snd (import_from_csv L (pre @ row # post) st)))
            (root_dir, RadicalsDir, r_character rad) \<or>
          has_key (radicals st) (r_character rad))"
      by (simp add: stop)
  qed
next
  assume "row ''strokes'' = Some s \<and> isl (int_of_str L s)"
  then show "\<not> row_builds L row" using bad_strokes_row by blast
next
  assume "is_radical L row \<and> row ''type'' = Some s \<and> s \<notin> set role_literals"
  then show "\<not> row_builds L row" using bad_type_row by blast
qed

lemma row_he_builds: "character_of_row example_lib row_he = Inr river"
  by (simp add: character_of_row_def row_he_def river_def int_field_def row_stroke_order_def
      row_digits_def row_list_def split_strip_def get_or_def example_lib_def ascii_int_def
      ascii_isdigit_def ascii_strip_def is_space_def)

lemma row_he_character: "\<not> is_radical example_lib row_he"
  by (simp add: is_radical_def row_he_def example_lib_def ascii_lower_def get_or_def)

lemma row_shui_radical: "is_radical example_lib row_shui"
  by (simp add: is_radical_def row_shui_def example_lib_def ascii_lower_def get_or_def)

lemma row_shui_builds: "radical_of_row example_lib row_shui = Inr water"
  by (simp add: radical_of_row_def row_shui_def water_def int_field_def row_stroke_order_def
      row_list_def get_or_def example_lib_def ascii_int_def RadicalType_of_def
      ascii_isdigit_def)

lemma row_bad_character: "\<not> is_radical example_lib row_bad"
  by (simp add: is_radical_def row_bad_def row_he_def example_lib_def ascii_lower_def
      get_or_def)

lemma row_bad_strokes:
  "row_bad ''strokes'' = Some ''eight''" "isl (int_of_str example_lib ''eight'')"
  by (simp_all add: row_bad_def example_lib_def ascii_int_def ascii_isdigit_def)

theorem failed_import_keeps_earlier_rows_witness:
  "row_builds example_lib row_shui \<and> row_builds example_lib row_he \<and>
   row_bad ''strokes'' = Some ''eight'' \<and> isl (int_of_str example_lib ''eight'') \<and>
   \<not> row_builds example_lib row_bad \<and>
   fst (import_from_csv example_lib [row_shui, row_he, row_bad, row_he] empty_store) = 0 \<and>
   fst (import_from_csv example_lib [row_shui, row_he] empty_store) = 2 \<and>
   has_key (characters (snd (import_from_csv example_lib [row_shui, row_he, row_bad, row_he]
     empty_store))) ''he'' \<and>
   has_key (files (snd (import_from_csv example_lib [row_shui, row_he, row_bad, row_he]
     empty_store))) (root_dir, CharactersDir, ''he'') \<and>
   has_key (radicals (snd (import_from_csv example_lib [row_shui, row_he, row_bad, row_he]
     empty_store))) ''shui'' \<and>
   has_key (files (snd (import_from_csv example_lib [row_shui, row_he, row_bad, row_he]
     empty_store))) (root_dir, RadicalsDir, ''shui'')"
proof -
  have b: "row_builds example_lib row_shui" "row_builds example_lib row_he"
    by (simp_all add: row_builds_def row_shui_radical row_he_character row_shui_builds
        row_he_builds)
  have e: "\<not> has_key (characters empty_store) ''he''" "\<not> has_key (radicals empty_store) ''shui''"
    by (simp_all add: has_key_def empty_store_def)
  have k: "c_character river = ''he''" "r_character water = ''shui''"
    by (simp_all add: river_def water_def)
  note T = failed_import_keeps_earlier_rows[where L = example_lib
      and pre = "[row_shui, row_he]" and row = row_bad and post = "[row_he]"
      and st = empty_store and s = "''eight''"]
  have nb: "\<not> row_builds example_lib row_bad"
    using T row_bad_strokes by blast
  have p: "(\<forall>r\<in>set [row_shui, row_he]. row_builds example_lib r) \<and>
      \<not> row_builds example_lib row_bad"
    using b nb by simp
  note M = T[THEN conjunct1, THEN mp, OF p]
  have g1: "fst (import_from_csv example_lib [row_shui, row_he, row_bad, row_he] empty_store) = 0"
    using M[THEN conjunct1] by simp
  have g2: "fst (import_from_csv example_lib [row_shui, row_he] empty_store) = 2"
    using M[THEN conjunct2, THEN conjunct1] by simp
  have g3: "has_key (characters (snd (import_from_csv example_lib
        [row_shui, row_he, row_bad, row_he] empty_store))) ''he'' \<and>
      has_key (files (snd (import_from_csv example_lib
        [row_shui, row_he, row_bad, row_he] empty_store))) (root_dir, CharactersDir, ''he'')"
    using M[THEN conjunct2, THEN conjunct2, THEN conjunct1, rule_format, of row_he river]
      row_he_character row_he_builds e k
    by simp
  have g4: "has_key (radicals (snd (import_from_csv example_lib
        [row_shui, row_he, row_bad, row_he] empty_store))) ''shui'' \<and>
      has_key (files (snd (import_from_csv example_lib
        [row_shui, row_he, row_bad, row_he] empty_store))) (root_dir, RadicalsDir, ''shui'')"
    using M[THEN conjunct2, THEN conjunct2, THEN conjunct2, rule_format, of row_shui water]
      row_shui_radical row_shui_builds e k
    by simp
  show ?thesis
    using b nb row_bad_strokes g1 g2 g3 g4 by simp
qed

theorem import_counts_processed_rows_witness:
  "row_builds example_lib row_shui \<and> row_builds example_lib row_he \<and>
   fst (import_from_csv example_lib [row_shui, row_he, row_he] empty_store) = 3 \<and>
   \<not> is_radical example_lib row_he \<and> character_of_row example_lib row_he = Inr river \<and>
   has_key (characters river_store) (c_character river) \<and>
   import_from_csv example_lib [row_he] river_store = (1, river_store) \<and>
   is_radical example_lib row_shui \<and> radical_of_row example_lib row_shui = Inr water \<and>
   has_key (radicals river_store) (r_character water) \<and>
   import_from_csv example_lib [row_shui] river_store = (1, river_store)"
proof -
  have b: "row_builds example_lib row_shui" "row_builds example_lib row_he"
    by (simp_all add: row_builds_def row_shui_radical row_he_character row_shui_builds
        row_he_builds)
  have k: "has_key (characters river_store) (c_character river)"
    "has_key (radicals river_store) (r_character water)"
    by (simp_all add: has_key_def river_store_def river_def water_def)
  show ?thesis
    using import_counts_processed_rows[where L = example_lib
        and rows = "[row_shui, row_he, row_he]" and st = empty_store]
      import_counts_processed_rows[where L = example_lib and row = row_he and c = river
        and st = river_store and rows = "[]"]
      import_counts_processed_rows[where L = example_lib and row = row_shui and r = water
        and st = river_store and rows = "[]"]
      b k row_he_builds row_shui_builds row_he_character row_shui_radical
    by simp
qed

text \<open>
  Claim C9 against the code. The claim wants a non-numeric cell of \<open>hsk_level\<close> or
  \<open>frequency_rank\<close> to leave the field 0 without failing the import. The row of the
  character imports when the column is absent; with the superscript two in the cell the
  digit-string check passes, \<open>int\<close> raises, and \<open>import_from_csv\<close> returns 0 with
  nothing added.
\<close>

theorem digit_guard_misses_superscript_digit:
  "isdigit unicode_lib superscript_two \<and>
   int_of_str unicode_lib superscript_two = Inl ValueError \<and>
   character_of_row unicode_lib (row_he(''hsk_level'' := None)) = Inr river \<and>
   fst (import_from_csv unicode_lib [row_he(''hsk_level'' := None)] empty_store) = 1 \<and>
   character_of_row unicode_lib row_sq = Inl ValueError \<and>
   import_from_csv unicode_lib [row_sq] empty_store = (0, empty_store) \<and>
   import_from_csv unicode_lib [row_he(''frequency_rank'' \<mapsto> superscript_two)] empty_store =
     (0, empty_store)"
proof -
  have d: "isdigit unicode_lib superscript_two"
    by (simp add: unicode_lib_def)
  have i: "int_of_str unicode_lib superscript_two = Inl ValueError"
    by (simp add: unicode_lib_def example_lib_def ascii_int_def ascii_isdigit_def
        superscript_two_def)
  have c: "\<not> is_radical unicode_lib (row_he(''hsk_level'' := None))"
    "\<not> is_radical unicode_lib row_sq"
    "\<not> is_radical unicode_lib (row_he(''frequency_rank'' \<mapsto> superscript_two))"
    by (simp_all add: is_radical_def row_sq_def row_he_def unicode_lib_def example_lib_def
        ascii_lower_def get_or_def)
  have ok: "character_of_row unicode_lib (row_he(''hsk_level'' := None)) = Inr river"
    by (simp add: character_of_row_def row_he_def river_def int_field_def row_stroke_order_def
        row_digits_def row_list_def split_strip_def get_or_def unicode_lib_def example_lib_def
        ascii_int_def ascii_isdigit_def ascii_strip_def is_space_def)
  then have "\<forall>row\<in>set [row_he(''hsk_level'' := None)]. row_builds unicode_lib row"
    using c(1) by (simp add: row_builds_def)
  then have one: "fst (import_from_csv unicode_lib [row_he(''hsk_level'' := None)] empty_store) = 1"
    by (simp add: import_all_build)
  have sq: "character_of_row unicode_lib row_sq = Inl ValueError"
    by (simp add: character_of_row_def row_sq_def row_he_def int_field_def row_stroke_order_def
        row_digits_def get_or_def unicode_lib_def example_lib_def ascii_int_def
        ascii_isdigit_def superscript_two_def)
  have fr: "character_of_row unicode_lib (row_he(''frequency_rank'' \<mapsto> superscript_two)) =
      Inl ValueError"
    by (simp add: character_of_row_def row_he_def int_field_def row_stroke_order_def
        row_digits_def get_or_def unicode_lib_def example_lib_def ascii_int_def
        ascii_isdigit_def superscript_two_def)
  have z1: "import_from_csv unicode_lib [row_sq] empty_store = (0, empty_store)"
    using c(2) sq by (simp add: import_from_csv_def import_row_def)
  have z2: "import_from_csv unicode_lib [row_he(''frequency_rank'' \<mapsto> superscript_two)]
      empty_store = (0, empty_store)"
    using c(3) fr by (simp add: import_from_csv_def import_row_def)
  show ?thesis using d i ok one sq z1 z2 by simp
qed

end
